theory Spec2Isabelle
  imports Main "HOL-Library.AList"
begin

section \<open>Knowledge-graph management of LightRAG (lightrag/kg\_manage.py)\<close>

text \<open>
  The module offers three asynchronous operations on a \<open>rag\<close> object: the batch insertion
  of relations between existing entities (\<open>insert_custom_relations\<close>), the merge-update
  of an entity (\<open>update_entity\<close>) and the merge-update of a relation
  (\<open>update_relation\<close>). Each of them talks to three stores reached through \<open>rag\<close>:
  the graph store \<open>chunk_entity_relation_graph\<close> and the two vector indexes
  \<open>entities_vdb\<close> and \<open>relationships_vdb\<close>, and ends with \<open>_insert_done\<close>, which
  calls \<open>index_done_callback\<close> on the stores.

  The embedding passes the \<open>rag\<close> object explicitly and returns it updated. A Python
  exception is the left summand of the result. Every call to a store is appended to a
  log, so that the order and the arguments of the calls can be stated.
\<close>

subsection \<open>Values\<close>

text \<open>
  The dictionaries of the module are \<open>dict[str, Any]\<close>. The module distinguishes a value
  that is a \<open>str\<close> from one that is not: only a \<open>str\<close> has \<open>upper()\<close> and only two
  \<open>str\<close> are concatenated by \<open>+\<close>. A value that is not a \<open>str\<close> (a number, \<open>None\<close>,
  a list ...) is \<open>PRaw\<close>, carrying the text that \<open>str()\<close> gives for it, which is all an
  f-string reads of it: the float \<open>1.0\<close> is \<open>PRaw ''1.0''\<close>.
\<close>

datatype pyval = PStr string | PRaw string

type_synonym attrs = "string \<rightharpoonup> pyval"

fun py_str :: "pyval \<Rightarrow> string" where
  "py_str (PStr s) = s"
| "py_str (PRaw r) = r"

text \<open>
  \<open>str.upper()\<close> on the letters \<open>a\<close> to \<open>z\<close>; strings are byte strings here and every
  other byte is left as it is.
\<close>

fun upper_char :: "char \<Rightarrow> char" where
  "upper_char (Char b0 b1 b2 b3 b4 b5 b6 b7) =
     (let n = (of_char (Char b0 b1 b2 b3 b4 b5 b6 b7) :: nat)
      in if 97 \<le> n \<and> n \<le> 122 then Char b0 b1 b2 b3 b4 False b6 b7
         else Char b0 b1 b2 b3 b4 b5 b6 b7)"

definition upper :: "string \<Rightarrow> string" where
  "upper s = map upper_char s"

text \<open>The f-string \<^verbatim>\<open>f'"{name.upper()}"'\<close>: upper case, wrapped in double quotes.\<close>

definition formatted :: "string \<Rightarrow> string" where
  "formatted name = [CHR 0x22] @ upper name @ [CHR 0x22]"

text \<open>
  Modelled from the spec: \<open>compute_mdhash_id\<close> lives in lightrag/utils.py, which is not
  among the sources. The spec (4.1) describes it as a cryptographic digest of the content
  behind a kind-specific prefix. The digest itself is the parameter \<open>md5\<close>.
\<close>

definition compute_mdhash_id :: "(string \<Rightarrow> string) \<Rightarrow> string \<Rightarrow> string \<Rightarrow> string" where
  "compute_mdhash_id md5 content prefix = prefix @ md5 content"

subsection \<open>The stores\<close>

text \<open>
  The payload dictionaries handed to the vector indexes have a fixed shape:
  \<open>{"content", "entity_name"}\<close> for entities and \<open>{"src_id", "tgt_id", "content"}\<close> for
  relations.
\<close>

datatype payload =
    EntityPayload (payload_content: string) (payload_entity_name: string)
  | RelationPayload (payload_src_id: string) (payload_tgt_id: string) (payload_content: string)

datatype store = EntitiesVdb | RelationshipsVdb | ChunkEntityRelationGraph

datatype call =
    HasNode string
  | GetNode string
  | UpsertNode string attrs
  | HasEdge string string
  | GetEdge string string
  | UpsertEdge string string attrs
  | Upsert store "(string \<times> payload) list"
  | IndexDoneCallback store

datatype exn =
    StoreFault call
  | KeyError string
  | AttributeError
  | TypeError

record graph =
  nodes :: "string \<rightharpoonup> attrs"
  edges :: "string \<times> string \<rightharpoonup> attrs"

type_synonym vdb = "string \<rightharpoonup> payload"

text \<open>
  The \<open>rag\<close> object: its three stores, each of which may be \<open>None\<close> (as
  \<open>_insert_done\<close> allows for), and the log of the calls made to them so far.
\<close>

record rag =
  chunk_entity_relation_graph :: "graph option"
  entities_vdb :: "vdb option"
  relationships_vdb :: "vdb option"
  calls :: "call list"

text \<open>
  Whether a store raises on a call is decided by a fault plan: a predicate on the calls
  made so far and the call being made.
\<close>

type_synonym faults = "call list \<Rightarrow> call \<Rightarrow> bool"

definition no_faults :: faults where
  "no_faults tr c = False"

definition log_call :: "call \<Rightarrow> rag \<Rightarrow> rag" where
  "log_call c r = r\<lparr>calls := calls r @ [c]\<rparr>"

definition new_calls :: "rag \<Rightarrow> rag \<Rightarrow> call list" where
  "new_calls r r' = drop (length (calls r)) (calls r')"

text \<open>
  Modelled from the spec: the graph store and the vector index are external
  collaborators (lightrag/base.py and the storage back ends are not among the sources).
  The spec (2, 6) gives their contract: the graph store is a key-value graph with
  existence check, get and upsert on nodes and on ordered pairs; a vector index supports
  upsert of a mapping from keys to payloads; both have a finalize operation, which leaves
  the records as they are. A call on an attribute that is \<open>None\<close> raises
  \<open>AttributeError\<close> before any store is reached; a call that the fault plan fails
  raises and leaves the store as it was.
\<close>

definition graph_call ::
  "faults \<Rightarrow> call \<Rightarrow> (graph \<Rightarrow> 'a \<times> graph) \<Rightarrow> rag \<Rightarrow> (exn + 'a) \<times> rag" where
  "graph_call flt c f r =
     (case chunk_entity_relation_graph r of
        None \<Rightarrow> (Inl AttributeError, r)
      | Some g \<Rightarrow>
          if flt (calls r) c then (Inl (StoreFault c), log_call c r)
          else (Inr (fst (f g)),
                log_call c (r\<lparr>chunk_entity_relation_graph := Some (snd (f g))\<rparr>)))"

definition has_node :: "faults \<Rightarrow> string \<Rightarrow> rag \<Rightarrow> (exn + bool) \<times> rag" where
  "has_node flt k = graph_call flt (HasNode k) (\<lambda>g. (nodes g k \<noteq> None, g))"

definition get_node :: "faults \<Rightarrow> string \<Rightarrow> rag \<Rightarrow> (exn + attrs option) \<times> rag" where
  "get_node flt k = graph_call flt (GetNode k) (\<lambda>g. (nodes g k, g))"

definition upsert_node :: "faults \<Rightarrow> string \<Rightarrow> attrs \<Rightarrow> rag \<Rightarrow> (exn + unit) \<times> rag" where
  "upsert_node flt k d =
     graph_call flt (UpsertNode k d) (\<lambda>g. ((), g\<lparr>nodes := (nodes g)(k \<mapsto> d)\<rparr>))"

definition has_edge :: "faults \<Rightarrow> string \<Rightarrow> string \<Rightarrow> rag \<Rightarrow> (exn + bool) \<times> rag" where
  "has_edge flt s t = graph_call flt (HasEdge s t) (\<lambda>g. (edges g (s, t) \<noteq> None, g))"

definition get_edge ::
  "faults \<Rightarrow> string \<Rightarrow> string \<Rightarrow> rag \<Rightarrow> (exn + attrs option) \<times> rag" where
  "get_edge flt s t = graph_call flt (GetEdge s t) (\<lambda>g. (edges g (s, t), g))"

definition upsert_edge ::
  "faults \<Rightarrow> string \<Rightarrow> string \<Rightarrow> attrs \<Rightarrow> rag \<Rightarrow> (exn + unit) \<times> rag" where
  "upsert_edge flt s t d =
     graph_call flt (UpsertEdge s t d) (\<lambda>g. ((), g\<lparr>edges := (edges g)((s, t) \<mapsto> d)\<rparr>))"

definition vdb_store :: "(string \<times> payload) list \<Rightarrow> vdb \<Rightarrow> vdb" where
  "vdb_store kvs v = fold (\<lambda>(k, p) m. m(k \<mapsto> p)) kvs v"

definition entities_vdb_upsert ::
  "faults \<Rightarrow> (string \<times> payload) list \<Rightarrow> rag \<Rightarrow> (exn + unit) \<times> rag" where
  "entities_vdb_upsert flt kvs r =
     (case entities_vdb r of
        None \<Rightarrow> (Inl AttributeError, r)
      | Some v \<Rightarrow>
          if flt (calls r) (Upsert EntitiesVdb kvs)
          then (Inl (StoreFault (Upsert EntitiesVdb kvs)), log_call (Upsert EntitiesVdb kvs) r)
          else (Inr (), log_call (Upsert EntitiesVdb kvs)
                          (r\<lparr>entities_vdb := Some (vdb_store kvs v)\<rparr>)))"

definition relationships_vdb_upsert ::
  "faults \<Rightarrow> (string \<times> payload) list \<Rightarrow> rag \<Rightarrow> (exn + unit) \<times> rag" where
  "relationships_vdb_upsert flt kvs r =
     (case relationships_vdb r of
        None \<Rightarrow> (Inl AttributeError, r)
      | Some v \<Rightarrow>
          if flt (calls r) (Upsert RelationshipsVdb kvs)
          then (Inl (StoreFault (Upsert RelationshipsVdb kvs)),
                log_call (Upsert RelationshipsVdb kvs) r)
          else (Inr (), log_call (Upsert RelationshipsVdb kvs)
                          (r\<lparr>relationships_vdb := Some (vdb_store kvs v)\<rparr>)))"

subsection \<open>\<open>_insert_done\<close>\<close>

text \<open>
  The list comprehension of \<open>_insert_done\<close> keeps, in this order, the entity index, the
  relation index and the graph store, each only if it is not \<open>None\<close>.
\<close>

definition storage_insts :: "rag \<Rightarrow> store list" where
  "storage_insts r =
     (if entities_vdb r \<noteq> None then [EntitiesVdb] else []) @
     (if relationships_vdb r \<noteq> None then [RelationshipsVdb] else []) @
     (if chunk_entity_relation_graph r \<noteq> None then [ChunkEntityRelationGraph] else [])"

text \<open>
  \<open>asyncio.gather\<close> starts every callback; when some of them raise, the first exception
  is the one that reaches the caller. The embedding starts them in list order, each
  seeing the calls logged before it, and reports the first one that failed in that order.
\<close>

fun index_done_callbacks :: "faults \<Rightarrow> store list \<Rightarrow> rag \<Rightarrow> exn option \<times> rag" where
  "index_done_callbacks flt [] r = (None, r)"
| "index_done_callbacks flt (s # ss) r =
     (let failed = flt (calls r) (IndexDoneCallback s);
          (e, r') = index_done_callbacks flt ss (log_call (IndexDoneCallback s) r)
      in (if failed then Some (StoreFault (IndexDoneCallback s)) else e, r'))"

definition insert_done :: "faults \<Rightarrow> rag \<Rightarrow> (exn + unit) \<times> rag" where
  "insert_done flt r =
     (case index_done_callbacks flt (storage_insts r) r of
        (Some e, r') \<Rightarrow> (Inl e, r')
      | (None, r') \<Rightarrow> (Inr (), r'))"

text \<open>
  The handler shared by the three operations:
  \<^verbatim>\<open>except Exception as e: if update_storage: await _insert_done(rag); raise e\<close>.
  An exception of \<open>_insert_done\<close> inside the handler replaces \<open>e\<close>.
\<close>

definition except_handler :: "faults \<Rightarrow> exn \<Rightarrow> bool \<Rightarrow> rag \<Rightarrow> (exn + 'a) \<times> rag" where
  "except_handler flt e update_storage r =
     (if update_storage
      then (case insert_done flt r of
              (Inl e2, r') \<Rightarrow> (Inl e2, r')
            | (Inr u, r') \<Rightarrow> (Inl e, r'))
      else (Inl e, r))"

subsection \<open>\<open>update_entity\<close>\<close>

text \<open>\<^verbatim>\<open>d.get(key, "")\<close>\<close>

definition get_or_empty :: "attrs \<Rightarrow> string \<Rightarrow> pyval" where
  "get_or_empty d k = (case d k of None \<Rightarrow> PStr [] | Some v \<Rightarrow> v)"

text \<open>
  The messages of the result dictionaries are Chinese sentences built from the names;
  each sentence is a constructor here, with the names it interpolates.
\<close>

datatype message =
    EntityNotFound string
  | EntityUpdated string
  | SourceEntityNotFound string
  | TargetEntityNotFound string
  | RelationNotFound string string
  | RelationUpdated string string

datatype status = Success | Failed

record update_result =
  status :: status
  message :: message
  updated_data :: "attrs option"

definition update_entity ::
  "faults \<Rightarrow> (string \<Rightarrow> string) \<Rightarrow> rag \<Rightarrow> string \<Rightarrow> attrs \<Rightarrow> (exn + update_result) \<times> rag" where
  "update_entity flt md5 r entity_name entity_data =
     (case has_node flt entity_name r of
        (Inl e, r1) \<Rightarrow> except_handler flt e False r1
      | (Inr entity_exists, r1) \<Rightarrow>
          if \<not> entity_exists
          then (Inr \<lparr>status = Failed, message = EntityNotFound entity_name,
                     updated_data = None\<rparr>, r1)
          else
           (case get_node flt entity_name r1 of
              (Inl e, r2) \<Rightarrow> except_handler flt e False r2
            | (Inr fetched, r2) \<Rightarrow>
               (let current_node_data = (case fetched of None \<Rightarrow> Map.empty | Some d \<Rightarrow> d);
                    updated_node_data = current_node_data ++ entity_data
                in case upsert_node flt entity_name updated_node_data r2 of
                     (Inl e, r3) \<Rightarrow> except_handler flt e False r3
                   | (Inr u, r3) \<Rightarrow>
                      (let entity_id = compute_mdhash_id md5 entity_name ''ent-'';
                           entity_content = entity_name @
                             py_str (get_or_empty updated_node_data ''description'')
                       in case entities_vdb_upsert flt
                                 [(entity_id, EntityPayload entity_content entity_name)] r3 of
                            (Inl e, r4) \<Rightarrow> except_handler flt e False r4
                          | (Inr u, r4) \<Rightarrow>
                             (case insert_done flt r4 of
                                (Inl e, r5) \<Rightarrow> except_handler flt e True r5
                              | (Inr u, r5) \<Rightarrow>
                                 (Inr \<lparr>status = Success,
                                        message = EntityUpdated entity_name,
                                        updated_data = Some updated_node_data\<rparr>, r5))))))"

subsection \<open>\<open>update_relation\<close>\<close>

text \<open>
  \<^verbatim>\<open>keywords + formatted_src_entity + formatted_tgt_entity + description\<close>: the two
  names are strings; \<open>+\<close> raises \<open>TypeError\<close> when \<open>keywords\<close> or \<open>description\<close>
  is not.
\<close>

fun relation_content :: "pyval \<Rightarrow> string \<Rightarrow> string \<Rightarrow> pyval \<Rightarrow> exn + string" where
  "relation_content (PStr keywords) src tgt (PStr description) =
     Inr (keywords @ src @ tgt @ description)"
| "relation_content keywords src tgt description = Inl TypeError"

text \<open>
  The merge of \<open>update_relation\<close>: the overlay \<^verbatim>\<open>{**current_edge_data, **relation_data}\<close>,
  then \<open>source_id\<close> is set back to the current one when the current edge has it and the
  incoming data does not.
\<close>

definition merge_edge_data :: "attrs \<Rightarrow> attrs \<Rightarrow> attrs" where
  "merge_edge_data current_edge_data relation_data =
     (let updated_edge_data = current_edge_data ++ relation_data
      in case current_edge_data ''source_id'' of
           Some v \<Rightarrow>
             if relation_data ''source_id'' = None
             then updated_edge_data(''source_id'' \<mapsto> v)
             else updated_edge_data
         | None \<Rightarrow> updated_edge_data)"

text \<open>
  In \<^verbatim>\<open>await rag.relationships_vdb.upsert({rel_id: {...}})\<close> the attribute
  \<open>upsert\<close> is looked up before the argument is built, so a missing index
  (\<open>AttributeError\<close>) is met before a \<open>TypeError\<close> of the content.
\<close>

definition update_relation ::
  "faults \<Rightarrow> (string \<Rightarrow> string) \<Rightarrow> rag \<Rightarrow> string \<Rightarrow> string \<Rightarrow> attrs
     \<Rightarrow> (exn + update_result) \<times> rag" where
  "update_relation flt md5 r src_entity tgt_entity relation_data =
     (let formatted_src_entity = formatted src_entity;
          formatted_tgt_entity = formatted tgt_entity
      in case has_node flt formatted_src_entity r of
        (Inl e, r1) \<Rightarrow> except_handler flt e False r1
      | (Inr src_exists, r1) \<Rightarrow>
         (case has_node flt formatted_tgt_entity r1 of
            (Inl e, r2) \<Rightarrow> except_handler flt e False r2
          | (Inr tgt_exists, r2) \<Rightarrow>
             if \<not> src_exists
             then (Inr \<lparr>status = Failed, message = SourceEntityNotFound src_entity,
                        updated_data = None\<rparr>, r2)
             else if \<not> tgt_exists
             then (Inr \<lparr>status = Failed, message = TargetEntityNotFound tgt_entity,
                        updated_data = None\<rparr>, r2)
             else
              (case has_edge flt formatted_src_entity formatted_tgt_entity r2 of
                 (Inl e, r3) \<Rightarrow> except_handler flt e False r3
               | (Inr edge_exists, r3) \<Rightarrow>
                  if \<not> edge_exists
                  then (Inr \<lparr>status = Failed,
                             message = RelationNotFound src_entity tgt_entity,
                             updated_data = None\<rparr>, r3)
                  else
                   (case get_edge flt formatted_src_entity formatted_tgt_entity r3 of
                      (Inl e, r4) \<Rightarrow> except_handler flt e False r4
                    | (Inr fetched, r4) \<Rightarrow>
                       (let current_edge_data =
                              (case fetched of None \<Rightarrow> Map.empty | Some d \<Rightarrow> d);
                            updated_edge_data = merge_edge_data current_edge_data relation_data
                        in case upsert_edge flt formatted_src_entity formatted_tgt_entity
                                  updated_edge_data r4 of
                             (Inl e, r5) \<Rightarrow> except_handler flt e False r5
                           | (Inr u, r5) \<Rightarrow>
                              (let rel_id = compute_mdhash_id md5
                                     (formatted_src_entity @ formatted_tgt_entity) ''rel-'';
                                   keywords = get_or_empty updated_edge_data ''keywords'';
                                   description = get_or_empty updated_edge_data ''description''
                               in if relationships_vdb r5 = None
                                  then except_handler flt AttributeError False r5
                                  else
                                   (case relation_content keywords formatted_src_entity
                                           formatted_tgt_entity description of
                                      Inl e \<Rightarrow> except_handler flt e False r5
                                    | Inr content \<Rightarrow>
                                       (case relationships_vdb_upsert flt
                                               [(rel_id, RelationPayload formatted_src_entity
                                                           formatted_tgt_entity content)] r5 of
                                          (Inl e, r6) \<Rightarrow> except_handler flt e False r6
                                        | (Inr u, r6) \<Rightarrow>
                                           (case insert_done flt r6 of
                                              (Inl e, r7) \<Rightarrow> except_handler flt e True r7
                                            | (Inr u, r7) \<Rightarrow>
                                               (Inr \<lparr>status = Success,
                                                      message = RelationUpdated src_entity
                                                                  tgt_entity,
                                                      updated_data = Some updated_edge_data\<rparr>,
                                                r7))))))))))"

subsection \<open>\<open>insert_custom_relations\<close>\<close>

text \<open>
  The reason of a skipped item is the sentence
  \<^verbatim>\<open>f"{'source' if not src_exists else 'target'} entity does not exist"\<close> (in Chinese in
  the source): it names the source when the source is missing, the target otherwise.
\<close>

datatype reason = SourceEntityMissing | TargetEntityMissing

text \<open>The dictionary staged for the vector index: \<open>src_id\<close>, \<open>tgt_id\<close>, \<open>description\<close>, \<open>keywords\<close>.\<close>

record edge_data =
  dp_src_id :: string
  dp_tgt_id :: string
  dp_description :: pyval
  dp_keywords :: pyval

text \<open>The local variables of the loop.\<close>

record loop_vars =
  all_relationships_data :: "edge_data list"
  added_relations :: "(string \<times> string) list"
  skipped_relations :: "(string \<times> string \<times> reason) list"
  update_storage :: bool

record batch_result =
  added :: "(string \<times> string) list"
  skipped :: "(string \<times> string \<times> reason) list"
  total_added :: nat
  total_skipped :: nat

text \<open>\<^verbatim>\<open>f'"{relationship_data[key].upper()}"'\<close>: \<open>KeyError\<close> without the key,
  \<open>AttributeError\<close> when the value has no \<open>upper\<close>.\<close>

definition formatted_field :: "attrs \<Rightarrow> string \<Rightarrow> exn + string" where
  "formatted_field d k =
     (case d k of
        None \<Rightarrow> Inl (KeyError k)
      | Some (PStr s) \<Rightarrow> Inr (formatted s)
      | Some (PRaw x) \<Rightarrow> Inl AttributeError)"

definition required_field :: "attrs \<Rightarrow> string \<Rightarrow> exn + pyval" where
  "required_field d k = (case d k of None \<Rightarrow> Inl (KeyError k) | Some v \<Rightarrow> Inr v)"

definition get_or :: "attrs \<Rightarrow> string \<Rightarrow> pyval \<Rightarrow> pyval" where
  "get_or d k dflt = (case d k of None \<Rightarrow> dflt | Some v \<Rightarrow> v)"

text \<open>The edge written to the graph store for an item.\<close>

definition graph_edge_data :: "attrs \<Rightarrow> pyval \<Rightarrow> pyval \<Rightarrow> attrs" where
  "graph_edge_data relationship_data description keywords =
     [''weight'' \<mapsto> get_or relationship_data ''weight'' (PRaw ''1.0''),
      ''description'' \<mapsto> description,
      ''keywords'' \<mapsto> keywords,
      ''source_id'' \<mapsto> get_or relationship_data ''source_id'' (PStr ''CUSTOM_RELATION'')]"

text \<open>
  One turn of the loop. The result is the exception raised in it, if any, with the local
  variables and the \<open>rag\<close> object as they are at that moment.
\<close>

definition insert_item ::
  "faults \<Rightarrow> attrs \<Rightarrow> loop_vars \<Rightarrow> rag \<Rightarrow> exn option \<times> loop_vars \<times> rag" where
  "insert_item flt relationship_data vars r =
     (case formatted_field relationship_data ''src_id'' of
        Inl e \<Rightarrow> (Some e, vars, r)
      | Inr src_id \<Rightarrow>
     (case formatted_field relationship_data ''tgt_id'' of
        Inl e \<Rightarrow> (Some e, vars, r)
      | Inr tgt_id \<Rightarrow>
     (case required_field relationship_data ''description'' of
        Inl e \<Rightarrow> (Some e, vars, r)
      | Inr description \<Rightarrow>
     (case required_field relationship_data ''keywords'' of
        Inl e \<Rightarrow> (Some e, vars, r)
      | Inr keywords \<Rightarrow>
     (case has_node flt src_id r of
        (Inl e, r1) \<Rightarrow> (Some e, vars, r1)
      | (Inr src_exists, r1) \<Rightarrow>
     (case has_node flt tgt_id r1 of
        (Inl e, r2) \<Rightarrow> (Some e, vars, r2)
      | (Inr tgt_exists, r2) \<Rightarrow>
         if \<not> src_exists \<or> \<not> tgt_exists
         then (None,
               vars\<lparr>skipped_relations := skipped_relations vars @
                      [(src_id, tgt_id,
                        if \<not> src_exists then SourceEntityMissing else TargetEntityMissing)]\<rparr>,
               r2)
         else
          (case upsert_edge flt src_id tgt_id
                  (graph_edge_data relationship_data description keywords) r2 of
             (Inl e, r3) \<Rightarrow> (Some e, vars, r3)
           | (Inr u, r3) \<Rightarrow>
              (None,
               vars\<lparr>all_relationships_data := all_relationships_data vars @
                       [\<lparr>dp_src_id = src_id, dp_tgt_id = tgt_id,
                         dp_description = description, dp_keywords = keywords\<rparr>],
                     added_relations := added_relations vars @ [(src_id, tgt_id)],
                     update_storage := True\<rparr>,
               r3))))))))"

fun insert_loop ::
  "faults \<Rightarrow> attrs list \<Rightarrow> loop_vars \<Rightarrow> rag \<Rightarrow> exn option \<times> loop_vars \<times> rag" where
  "insert_loop flt [] vars r = (None, vars, r)"
| "insert_loop flt (relationship_data # rest) vars r =
     (case insert_item flt relationship_data vars r of
        (Some e, vars', r') \<Rightarrow> (Some e, vars', r')
      | (None, vars', r') \<Rightarrow> insert_loop flt rest vars' r')"

text \<open>
  The dictionary comprehension \<open>data_for_vdb\<close>: one entry per staged dictionary, under
  the key \<^verbatim>\<open>compute_mdhash_id(dp["src_id"] + dp["tgt_id"], prefix="rel-")\<close>. A key met
  again keeps its place and takes the later payload, as a Python dictionary does.
\<close>

fun data_for_vdb ::
  "(string \<Rightarrow> string) \<Rightarrow> edge_data list \<Rightarrow> (string \<times> payload) list
     \<Rightarrow> exn + (string \<times> payload) list" where
  "data_for_vdb md5 [] acc = Inr acc"
| "data_for_vdb md5 (dp # dps) acc =
     (case relation_content (dp_keywords dp) (dp_src_id dp) (dp_tgt_id dp)
             (dp_description dp) of
        Inl e \<Rightarrow> Inl e
      | Inr content \<Rightarrow>
          data_for_vdb md5 dps
            (AList.update (compute_mdhash_id md5 (dp_src_id dp @ dp_tgt_id dp) ''rel-'')
               (RelationPayload (dp_src_id dp) (dp_tgt_id dp) content) acc))"

definition initial_vars :: loop_vars where
  "initial_vars = \<lparr>all_relationships_data = [], added_relations = [],
                    skipped_relations = [], update_storage = False\<rparr>"

definition insert_custom_relations ::
  "faults \<Rightarrow> (string \<Rightarrow> string) \<Rightarrow> rag \<Rightarrow> attrs list \<Rightarrow> (exn + batch_result) \<times> rag" where
  "insert_custom_relations flt md5 r relations_data =
     (case insert_loop flt relations_data initial_vars r of
        (Some e, vars, r1) \<Rightarrow> except_handler flt e (update_storage vars) r1
      | (None, vars, r1) \<Rightarrow>
         (case (if all_relationships_data vars \<noteq> []
                then (case data_for_vdb md5 (all_relationships_data vars) [] of
                        Inl e \<Rightarrow> (Inl e, r1)
                      | Inr kvs \<Rightarrow> relationships_vdb_upsert flt kvs r1)
                else (Inr (), r1)) of
            (Inl e, r2) \<Rightarrow> except_handler flt e (update_storage vars) r2
          | (Inr u, r2) \<Rightarrow>
             (let result = \<lparr>added = added_relations vars,
                             skipped = skipped_relations vars,
                             total_added = length (added_relations vars),
                             total_skipped = length (skipped_relations vars)\<rparr>
              in if update_storage vars
                 then (case insert_done flt r2 of
                         (Inl e, r3) \<Rightarrow> except_handler flt e (update_storage vars) r3
                       | (Inr u, r3) \<Rightarrow> (Inr result, r3))
                 else (Inr result, r2))))"

subsection \<open>Notions used to state the properties\<close>

text \<open>The node and edge tables of the graph store of a \<open>rag\<close> object (empty without one).\<close>

definition graph_nodes :: "rag \<Rightarrow> string \<rightharpoonup> attrs" where
  "graph_nodes r =
     (case chunk_entity_relation_graph r of None \<Rightarrow> Map.empty | Some g \<Rightarrow> nodes g)"

definition graph_edges :: "rag \<Rightarrow> string \<times> string \<rightharpoonup> attrs" where
  "graph_edges r =
     (case chunk_entity_relation_graph r of None \<Rightarrow> Map.empty | Some g \<Rightarrow> edges g)"

text \<open>Calls that write records, and calls that finalize a store.\<close>

fun is_write :: "call \<Rightarrow> bool" where
  "is_write (UpsertNode k d) = True"
| "is_write (UpsertEdge s t d) = True"
| "is_write (Upsert st kvs) = True"
| "is_write c = False"

fun is_vdb_upsert :: "call \<Rightarrow> bool" where
  "is_vdb_upsert (Upsert st kvs) = True"
| "is_vdb_upsert c = False"

fun is_finalize :: "call \<Rightarrow> bool" where
  "is_finalize (IndexDoneCallback st) = True"
| "is_finalize c = False"

text \<open>The store a call is made on.\<close>

fun store_of :: "call \<Rightarrow> store" where
  "store_of (Upsert st kvs) = st"
| "store_of (IndexDoneCallback st) = st"
| "store_of c = ChunkEntityRelationGraph"

text \<open>The stores written to, and the stores finalized, in a list of calls.\<close>

definition written_stores :: "call list \<Rightarrow> store set" where
  "written_stores cs = store_of ` set (filter is_write cs)"

definition finalized_stores :: "call list \<Rightarrow> store set" where
  "finalized_stores cs = store_of ` set (filter is_finalize cs)"

text \<open>
  An item of a batch that passes the reads of the loop body: \<open>src_id\<close> and \<open>tgt_id\<close>
  are strings, \<open>description\<close> and \<open>keywords\<close> are there.
\<close>

definition well_formed :: "attrs \<Rightarrow> bool" where
  "well_formed item \<longleftrightarrow>
     (case item ''src_id'' of Some (PStr s) \<Rightarrow> True | _ \<Rightarrow> False) \<and>
     (case item ''tgt_id'' of Some (PStr s) \<Rightarrow> True | _ \<Rightarrow> False) \<and>
     item ''description'' \<noteq> None \<and> item ''keywords'' \<noteq> None"

text \<open>The normalized endpoints of a well-formed item.\<close>

definition item_src :: "attrs \<Rightarrow> string" where
  "item_src item = formatted (py_str (get_or_empty item ''src_id''))"

definition item_tgt :: "attrs \<Rightarrow> string" where
  "item_tgt item = formatted (py_str (get_or_empty item ''tgt_id''))"

definition endpoints_exist :: "(string \<rightharpoonup> attrs) \<Rightarrow> attrs \<Rightarrow> bool" where
  "endpoints_exist ns item \<longleftrightarrow> ns (item_src item) \<noteq> None \<and> ns (item_tgt item) \<noteq> None"

text \<open>What a well-formed item adds to the lists, to the graph and to the log.\<close>

definition skip_entry :: "(string \<rightharpoonup> attrs) \<Rightarrow> attrs \<Rightarrow> string \<times> string \<times> reason" where
  "skip_entry ns item =
     (item_src item, item_tgt item,
      if ns (item_src item) = None then SourceEntityMissing else TargetEntityMissing)"

definition staged_entry :: "attrs \<Rightarrow> edge_data" where
  "staged_entry item =
     \<lparr>dp_src_id = item_src item, dp_tgt_id = item_tgt item,
      dp_description = get_or_empty item ''description'',
      dp_keywords = get_or_empty item ''keywords''\<rparr>"

definition item_edge :: "attrs \<Rightarrow> attrs" where
  "item_edge item =
     graph_edge_data item (get_or_empty item ''description'') (get_or_empty item ''keywords'')"

definition item_calls :: "(string \<rightharpoonup> attrs) \<Rightarrow> attrs \<Rightarrow> call list" where
  "item_calls ns item =
     [HasNode (item_src item), HasNode (item_tgt item)] @
     (if endpoints_exist ns item
      then [UpsertEdge (item_src item) (item_tgt item) (item_edge item)] else [])"

definition write_edges ::
  "attrs list \<Rightarrow> (string \<times> string \<rightharpoonup> attrs) \<Rightarrow> (string \<times> string \<rightharpoonup> attrs)" where
  "write_edges items es =
     fold (\<lambda>item m. m((item_src item, item_tgt item) \<mapsto> item_edge item)) items es"

text \<open>The record that \<open>update_relation\<close> hands to the relation index.\<close>

definition relation_record ::
  "(string \<Rightarrow> string) \<Rightarrow> string \<Rightarrow> string \<Rightarrow> attrs \<Rightarrow> string \<times> payload" where
  "relation_record md5 fs ft upd =
     (compute_mdhash_id md5 (fs @ ft) ''rel-'',
      RelationPayload fs ft (py_str (get_or_empty upd ''keywords'') @ fs @ ft @
                             py_str (get_or_empty upd ''description'')))"

text \<open>The record that \<open>update_entity\<close> hands to the entity index.\<close>

definition entity_record :: "(string \<Rightarrow> string) \<Rightarrow> string \<Rightarrow> attrs \<Rightarrow> string \<times> payload" where
  "entity_record md5 n upd =
     (compute_mdhash_id md5 n ''ent-'',
      EntityPayload (n @ py_str (get_or_empty upd ''description'')) n)"

text \<open>The key of a staged dictionary in \<open>data_for_vdb\<close>.\<close>

definition rel_key :: "(string \<Rightarrow> string) \<Rightarrow> edge_data \<Rightarrow> string" where
  "rel_key md5 dp = compute_mdhash_id md5 (dp_src_id dp @ dp_tgt_id dp) ''rel-''"

text \<open>The record that \<open>data_for_vdb\<close> builds for a staged dictionary.\<close>

definition staged_record :: "(string \<Rightarrow> string) \<Rightarrow> edge_data \<Rightarrow> string \<times> payload" where
  "staged_record md5 dp =
     (rel_key md5 dp,
      RelationPayload (dp_src_id dp) (dp_tgt_id dp)
        (py_str (dp_keywords dp) @ dp_src_id dp @ dp_tgt_id dp @ py_str (dp_description dp)))"

text \<open>The records of the relation index of a \<open>rag\<close> object (none without one).\<close>

definition relation_records :: "rag \<Rightarrow> string \<rightharpoonup> payload" where
  "relation_records r = (case relationships_vdb r of None \<Rightarrow> Map.empty | Some v \<Rightarrow> v)"

text \<open>The node names that a call hands to the graph store.\<close>

fun call_names :: "call \<Rightarrow> string list" where
  "call_names (HasNode k) = [k]"
| "call_names (GetNode k) = [k]"
| "call_names (UpsertNode k d) = [k]"
| "call_names (HasEdge s t) = [s, t]"
| "call_names (GetEdge s t) = [s, t]"
| "call_names (UpsertEdge s t d) = [s, t]"
| "call_names c = []"

subsection \<open>A sample knowledge base\<close>

text \<open>
  The entity \<open>PARIS\<close> of the scenario of the spec (8), stored under its plain name, and the
  entities \<open>A\<close> and \<open>B\<close> stored under their normalized names with an edge from \<open>A\<close> to
  \<open>B\<close>; there is no entity \<open>C\<close>. The digest of the sample is the identity, which has no
  collisions.
\<close>

definition sample_md5 :: "string \<Rightarrow> string" where
  "sample_md5 s = s"

definition sample_graph :: graph where
  "sample_graph =
     \<lparr>nodes = [''PARIS'' \<mapsto> [''description'' \<mapsto> PStr ''capital of France''],
               formatted ''A'' \<mapsto> [''entity_type'' \<mapsto> PStr ''UNKNOWN''],
               formatted ''B'' \<mapsto> [''entity_type'' \<mapsto> PStr ''UNKNOWN'']],
      edges = [(formatted ''A'', formatted ''B'') \<mapsto>
                 [''description'' \<mapsto> PStr ''first'', ''keywords'' \<mapsto> PStr ''kw'',
                  ''source_id'' \<mapsto> PStr ''doc-1'']]\<rparr>"

definition sample_rag :: rag where
  "sample_rag =
     \<lparr>chunk_entity_relation_graph = Some sample_graph,
      entities_vdb = Some Map.empty,
      relationships_vdb = Some Map.empty,
      calls = []\<rparr>"

definition relation_item :: "string \<Rightarrow> string \<Rightarrow> attrs" where
  "relation_item s t =
     [''src_id'' \<mapsto> PStr s, ''tgt_id'' \<mapsto> PStr t,
      ''description'' \<mapsto> PStr ''linked'', ''keywords'' \<mapsto> PStr ''kw'']"

text \<open>A fault plan under which every upsert of a vector index is rejected.\<close>

definition vdb_upsert_fails :: faults where
  "vdb_upsert_fails tr c = is_vdb_upsert c"

text \<open>Two merge-updates of \<open>PARIS\<close> in sequence, with disjoint keys.\<close>

definition paris_first :: "(exn + update_result) \<times> rag" where
  "paris_first =
     update_entity no_faults sample_md5 sample_rag ''PARIS'' [''entity_type'' \<mapsto> PStr ''CITY'']"

definition paris_second :: "(exn + update_result) \<times> rag" where
  "paris_second =
     update_entity no_faults sample_md5 (snd paris_first) ''PARIS''
       [''population'' \<mapsto> PRaw ''2100000'']"

text \<open>The batch of the scenario of the spec (8): \<open>A\<close> to \<open>B\<close>, and \<open>A\<close> to the missing \<open>C\<close>.\<close>

definition sample_batch :: "(exn + batch_result) \<times> rag" where
  "sample_batch =
     insert_custom_relations no_faults sample_md5 sample_rag
       [relation_item ''a'' ''b'', relation_item ''a'' ''c'']"

text \<open>A batch whose only item has a missing endpoint.\<close>

definition sample_batch_skipped :: "(exn + batch_result) \<times> rag" where
  "sample_batch_skipped =
     insert_custom_relations no_faults sample_md5 sample_rag [relation_item ''a'' ''c'']"

text \<open>A batch whose only item has a missing source.\<close>

definition sample_batch_reversed :: "(exn + batch_result) \<times> rag" where
  "sample_batch_reversed =
     insert_custom_relations no_faults sample_md5 sample_rag [relation_item ''c'' ''b'']"

text \<open>An entity update and a batch insertion whose vector-index upsert is rejected.\<close>

definition paris_vdb_fault :: "(exn + update_result) \<times> rag" where
  "paris_vdb_fault =
     update_entity vdb_upsert_fails sample_md5 sample_rag ''PARIS''
       [''entity_type'' \<mapsto> PStr ''CITY'']"

definition batch_vdb_fault :: "(exn + batch_result) \<times> rag" where
  "batch_vdb_fault =
     insert_custom_relations vdb_upsert_fails sample_md5 sample_rag [relation_item ''a'' ''b'']"

text \<open>A merge-update of the relation from \<open>A\<close> to \<open>B\<close>.\<close>

definition sample_relation_update :: "(exn + update_result) \<times> rag" where
  "sample_relation_update =
     update_relation no_faults sample_md5 sample_rag ''a'' ''b''
       [''description'' \<mapsto> PStr ''second'']"

text \<open>Two merge-updates of \<open>PARIS\<close> in sequence, each with a new description.\<close>

definition paris_described :: "(exn + update_result) \<times> rag" where
  "paris_described =
     update_entity no_faults sample_md5 sample_rag ''PARIS''
       [''description'' \<mapsto> PStr ''city of light'']"

definition paris_described_again :: "(exn + update_result) \<times> rag" where
  "paris_described_again =
     update_entity no_faults sample_md5 (snd paris_described) ''PARIS''
       [''description'' \<mapsto> PStr ''on the Seine'']"

text \<open>A merge-update of the entity \<open>A\<close>, named in lower case.\<close>

definition lower_a_update :: "(exn + update_result) \<times> rag" where
  "lower_a_update =
     update_entity no_faults sample_md5 sample_rag ''a'' [''entity_type'' \<mapsto> PStr ''LETTER'']"

text \<open>
  A batch whose second item has a number as \<open>src_id\<close>, and a batch whose two items
  name the same pair of entities.
\<close>

definition sample_batch_raises :: "(exn + batch_result) \<times> rag" where
  "sample_batch_raises =
     insert_custom_relations no_faults sample_md5 sample_rag
       [relation_item ''a'' ''b'', (relation_item ''a'' ''b'')(''src_id'' \<mapsto> PRaw ''7'')]"

definition sample_batch_same_pair :: "(exn + batch_result) \<times> rag" where
  "sample_batch_same_pair =
     insert_custom_relations no_faults sample_md5 sample_rag
       [relation_item ''a'' ''b'',
        (relation_item ''A'' ''B'')(''description'' \<mapsto> PStr ''again'')]"

section \<open>Properties\<close>

subsection \<open>Auxiliary facts about the stores and the handler\<close>

lemma except_handler_not_Inr [simp]: "except_handler flt e b r \<noteq> (Inr x, r')"
  by (auto simp: except_handler_def split: prod.splits sum.splits)

lemma snd_index_done_callbacks:
  "snd (index_done_callbacks flt ss r) = r\<lparr>calls := calls r @ map IndexDoneCallback ss\<rparr>"
  by (induction ss arbitrary: r) (simp_all add: log_call_def Let_def split_def)

lemma insert_done_rag:
  "insert_done flt r = (x, r') \<Longrightarrow>
     r' = r\<lparr>calls := calls r @ map IndexDoneCallback (storage_insts r)\<rparr>"
  using snd_index_done_callbacks [of flt "storage_insts r" r]
  by (auto simp: insert_done_def split: prod.splits option.splits)

lemma graph_call_Inr:
  "graph_call flt c f r = (Inr a, r') \<longleftrightarrow>
     (\<exists>g. chunk_entity_relation_graph r = Some g \<and> \<not> flt (calls r) c \<and> a = fst (f g) \<and>
          r' = r\<lparr>chunk_entity_relation_graph := Some (snd (f g)), calls := calls r @ [c]\<rparr>)"
  by (auto simp: graph_call_def log_call_def split: option.splits)

lemma relation_content_Inr:
  "relation_content k s t d = Inr c \<longleftrightarrow>
     (\<exists>kw de. k = PStr kw \<and> d = PStr de \<and> c = kw @ s @ t @ de)"
  by (cases k; cases d) auto

lemma formatted_field_Inr:
  "formatted_field d k = Inr x \<longleftrightarrow> (\<exists>s. d k = Some (PStr s) \<and> x = formatted s)"
  by (auto simp: formatted_field_def split: option.splits pyval.splits)

lemma required_field_Inr: "required_field d k = Inr x \<longleftrightarrow> d k = Some x"
  by (auto simp: required_field_def split: option.splits)

subsection \<open>What a normal return of \<open>update_entity\<close> and \<open>update_relation\<close> means\<close>

lemma update_entity_Inr:
  assumes "update_entity flt md5 r n d = (Inr res, r')"
  shows "\<exists>g. chunk_entity_relation_graph r = Some g \<and>
     (case nodes g n of
        None \<Rightarrow>
          res = \<lparr>status = Failed, message = EntityNotFound n, updated_data = None\<rparr> \<and>
          r' = r\<lparr>calls := calls r @ [HasNode n]\<rparr>
      | Some cur \<Rightarrow> \<exists>v. entities_vdb r = Some v \<and>
          res = \<lparr>status = Success, message = EntityUpdated n,
                 updated_data = Some (cur ++ d)\<rparr> \<and>
          r' = r\<lparr>chunk_entity_relation_graph :=
                   Some (g\<lparr>nodes := (nodes g)(n \<mapsto> cur ++ d)\<rparr>),
                 entities_vdb := Some (vdb_store [entity_record md5 n (cur ++ d)] v),
                 calls := calls r @
                   [HasNode n, GetNode n, UpsertNode n (cur ++ d),
                    Upsert EntitiesVdb [entity_record md5 n (cur ++ d)]]
                   @ map IndexDoneCallback (storage_insts r)\<rparr>)"
  using assms
  unfolding update_entity_def has_node_def get_node_def upsert_node_def
  by (auto simp: graph_call_Inr Let_def entities_vdb_upsert_def log_call_def
        entity_record_def storage_insts_def
      split: prod.splits sum.splits if_splits option.splits dest!: insert_done_rag)

lemma update_relation_Inr:
  assumes "update_relation flt md5 r s t d = (Inr res, r')"
  shows "\<exists>g. chunk_entity_relation_graph r = Some g \<and>
     (if nodes g (formatted s) = None then
        res = \<lparr>status = Failed, message = SourceEntityNotFound s, updated_data = None\<rparr> \<and>
        r' = r\<lparr>calls := calls r @ [HasNode (formatted s), HasNode (formatted t)]\<rparr>
      else if nodes g (formatted t) = None then
        res = \<lparr>status = Failed, message = TargetEntityNotFound t, updated_data = None\<rparr> \<and>
        r' = r\<lparr>calls := calls r @ [HasNode (formatted s), HasNode (formatted t)]\<rparr>
      else case edges g (formatted s, formatted t) of
        None \<Rightarrow>
          res = \<lparr>status = Failed, message = RelationNotFound s t, updated_data = None\<rparr> \<and>
          r' = r\<lparr>calls := calls r @ [HasNode (formatted s), HasNode (formatted t),
                                      HasEdge (formatted s) (formatted t)]\<rparr>
      | Some cur \<Rightarrow> \<exists>v kw de.
          relationships_vdb r = Some v \<and>
          get_or_empty (merge_edge_data cur d) ''keywords'' = PStr kw \<and>
          get_or_empty (merge_edge_data cur d) ''description'' = PStr de \<and>
          res = \<lparr>status = Success, message = RelationUpdated s t,
                 updated_data = Some (merge_edge_data cur d)\<rparr> \<and>
          r' = r\<lparr>chunk_entity_relation_graph :=
                   Some (g\<lparr>edges := (edges g)((formatted s, formatted t) \<mapsto>
                                                merge_edge_data cur d)\<rparr>),
                 relationships_vdb :=
                   Some (vdb_store [relation_record md5 (formatted s) (formatted t)
                                      (merge_edge_data cur d)] v),
                 calls := calls r @
                   [HasNode (formatted s), HasNode (formatted t),
                    HasEdge (formatted s) (formatted t), GetEdge (formatted s) (formatted t),
                    UpsertEdge (formatted s) (formatted t) (merge_edge_data cur d),
                    Upsert RelationshipsVdb [relation_record md5 (formatted s) (formatted t)
                                               (merge_edge_data cur d)]]
                   @ map IndexDoneCallback (storage_insts r)\<rparr>)"
  using assms
  unfolding update_relation_def has_node_def get_edge_def has_edge_def upsert_edge_def
  by (auto simp: graph_call_Inr Let_def relationships_vdb_upsert_def log_call_def
        relation_record_def storage_insts_def relation_content_Inr
      split: prod.splits sum.splits if_splits option.splits dest!: insert_done_rag)

subsection \<open>Unfolding the stores and the sample\<close>

lemmas store_defs = graph_call_def has_node_def get_node_def upsert_node_def has_edge_def get_edge_def
  upsert_edge_def entities_vdb_upsert_def relationships_vdb_upsert_def log_call_def
  insert_done_def storage_insts_def except_handler_def no_faults_def

lemmas sample_defs = sample_rag_def sample_graph_def sample_md5_def formatted_def upper_def
  relation_item_def

subsection \<open>What a normal end of the loop of \<open>insert_custom_relations\<close> means\<close>

lemma insert_item_None:
  assumes "insert_item flt item vars r = (None, vars', r')"
  shows "well_formed item \<and> chunk_entity_relation_graph r \<noteq> None \<and>
     chunk_entity_relation_graph r' \<noteq> None \<and>
     graph_nodes r' = graph_nodes r \<and>
     entities_vdb r' = entities_vdb r \<and> relationships_vdb r' = relationships_vdb r \<and>
     calls r' = calls r @ item_calls (graph_nodes r) item \<and>
     (if endpoints_exist (graph_nodes r) item
      then graph_edges r' = (graph_edges r)((item_src item, item_tgt item) \<mapsto> item_edge item) \<and>
           vars' = vars\<lparr>all_relationships_data := all_relationships_data vars @ [staged_entry item],
                        added_relations := added_relations vars @ [(item_src item, item_tgt item)],
                        update_storage := True\<rparr>
      else graph_edges r' = graph_edges r \<and>
           vars' = vars\<lparr>skipped_relations := skipped_relations vars @
                                                [skip_entry (graph_nodes r) item]\<rparr>)"
  using assms
  unfolding insert_item_def has_node_def upsert_edge_def
  by (auto simp: graph_call_Inr formatted_field_Inr required_field_Inr well_formed_def
        graph_nodes_def graph_edges_def item_calls_def endpoints_exist_def item_src_def item_tgt_def
        get_or_empty_def staged_entry_def item_edge_def skip_entry_def
      split: sum.splits prod.splits if_splits)


lemma insert_loop_None:
  "insert_loop flt items vars r = (None, vars', r') \<Longrightarrow>
     (\<forall>item \<in> set items. well_formed item) \<and>
     (items \<noteq> [] \<longrightarrow> chunk_entity_relation_graph r \<noteq> None) \<and>
     (chunk_entity_relation_graph r' = None \<longleftrightarrow> chunk_entity_relation_graph r = None) \<and>
     graph_nodes r' = graph_nodes r \<and>
     entities_vdb r' = entities_vdb r \<and> relationships_vdb r' = relationships_vdb r \<and>
     calls r' = calls r @ concat (map (item_calls (graph_nodes r)) items) \<and>
     graph_edges r' = write_edges (filter (endpoints_exist (graph_nodes r)) items) (graph_edges r) \<and>
     all_relationships_data vars' = all_relationships_data vars @
        map staged_entry (filter (endpoints_exist (graph_nodes r)) items) \<and>
     added_relations vars' = added_relations vars @
        map (\<lambda>item. (item_src item, item_tgt item)) (filter (endpoints_exist (graph_nodes r)) items) \<and>
     skipped_relations vars' = skipped_relations vars @
        map (skip_entry (graph_nodes r)) (filter (\<lambda>item. \<not> endpoints_exist (graph_nodes r) item) items) \<and>
     update_storage vars' = (update_storage vars \<or> filter (endpoints_exist (graph_nodes r)) items \<noteq> [])"
proof (induction items arbitrary: vars r)
  case Nil
  then show ?case by (simp add: write_edges_def)
next
  case (Cons item items)
  from Cons.prems obtain v1 r1 where
    step: "insert_item flt item vars r = (None, v1, r1)" and
    rest: "insert_loop flt items v1 r1 = (None, vars', r')"
    by (auto split: prod.splits option.splits)
  note s = insert_item_None [OF step]
  note ih = Cons.IH [OF rest]
  from s have wf: "well_formed item" and g: "chunk_entity_relation_graph r \<noteq> None"
    and g1: "chunk_entity_relation_graph r1 \<noteq> None"
    and n1: "graph_nodes r1 = graph_nodes r"
    and ev: "entities_vdb r1 = entities_vdb r" and rv: "relationships_vdb r1 = relationships_vdb r"
    and c1: "calls r1 = calls r @ item_calls (graph_nodes r) item"
    by simp_all
  show ?case
  proof (cases "endpoints_exist (graph_nodes r) item")
    case True
    with s have e1: "graph_edges r1 = (graph_edges r)((item_src item, item_tgt item) \<mapsto> item_edge item)"
      and v1: "v1 = vars\<lparr>all_relationships_data := all_relationships_data vars @ [staged_entry item],
                        added_relations := added_relations vars @ [(item_src item, item_tgt item)],
                        update_storage := True\<rparr>"
      by simp_all
    have w: "write_edges (filter (endpoints_exist (graph_nodes r)) (item # items)) (graph_edges r)
          = write_edges (filter (endpoints_exist (graph_nodes r)) items) (graph_edges r1)"
      using True by (simp add: write_edges_def e1)
    show ?thesis
      using ih wf g g1 True unfolding n1 ev rv c1 w v1 by auto
  next
    case False
    with s have e1: "graph_edges r1 = graph_edges r"
      and v1: "v1 = vars\<lparr>skipped_relations := skipped_relations vars @
                                                [skip_entry (graph_nodes r) item]\<rparr>"
      by simp_all
    show ?thesis
      using ih wf g g1 False unfolding n1 ev rv c1 e1 v1 by auto
  qed
qed

subsection \<open>The provenance of a relation\<close>

lemma merge_edge_data_source_id:
  "d ''source_id'' = None \<Longrightarrow> merge_edge_data cur d ''source_id'' = cur ''source_id''"
  by (auto simp: merge_edge_data_def Let_def map_add_def split: option.splits)

text \<open>
  C5. When \<open>update_relation\<close> succeeds and the incoming attribute map has no key
  \<open>source_id\<close>, there was an edge record before, the merged record is what is returned
  and what the graph store holds for the edge afterwards, and its \<open>source_id\<close> is that
  of the prior record (absent when the prior record had none).
\<close>

theorem update_relation_preserves_source_id:
  assumes "update_relation flt md5 r src_entity tgt_entity relation_data = (Inr res, r')"
    and "status res = Success"
    and "relation_data ''source_id'' = None"
  shows "\<exists>prior merged.
      graph_edges r (formatted src_entity, formatted tgt_entity) = Some prior \<and>
      updated_data res = Some merged \<and>
      graph_edges r' (formatted src_entity, formatted tgt_entity) = Some merged \<and>
      merged ''source_id'' = prior ''source_id''"
proof -
  from update_relation_Inr [OF assms(1)] obtain g where
    g: "chunk_entity_relation_graph r = Some g" and
    c: "if nodes g (formatted src_entity) = None then status res = Failed
        else if nodes g (formatted tgt_entity) = None then status res = Failed
        else case edges g (formatted src_entity, formatted tgt_entity) of
          None \<Rightarrow> status res = Failed
        | Some cur \<Rightarrow>
            updated_data res = Some (merge_edge_data cur relation_data) \<and>
            graph_edges r' (formatted src_entity, formatted tgt_entity) =
              Some (merge_edge_data cur relation_data)"
    by (fastforce simp: graph_edges_def split: if_splits option.splits)
  from c assms(2) obtain cur where
    cur: "edges g (formatted src_entity, formatted tgt_entity) = Some cur" and
    u: "updated_data res = Some (merge_edge_data cur relation_data)" and
    e: "graph_edges r' (formatted src_entity, formatted tgt_entity) =
              Some (merge_edge_data cur relation_data)"
    by (auto split: if_splits option.splits)
  from g cur have "graph_edges r (formatted src_entity, formatted tgt_entity) = Some cur"
    by (simp add: graph_edges_def)
  with u e merge_edge_data_source_id [of relation_data cur] assms(3) show ?thesis by simp
qed

lemma sample_update_relation:
  "fst (update_relation no_faults sample_md5 sample_rag ''a'' ''b''
          [''description'' \<mapsto> PStr ''second'']) =
   Inr \<lparr>status = Success, message = RelationUpdated ''a'' ''b'',
        updated_data = Some (merge_edge_data
           [''description'' \<mapsto> PStr ''first'', ''keywords'' \<mapsto> PStr ''kw'',
            ''source_id'' \<mapsto> PStr ''doc-1'']
           [''description'' \<mapsto> PStr ''second''])\<rparr>"
  by (simp add: update_relation_def store_defs sample_defs Let_def get_or_empty_def
        merge_edge_data_def compute_mdhash_id_def)

theorem update_relation_preserves_source_id_witness:
  "status (projr (fst (update_relation no_faults sample_md5 sample_rag ''a'' ''b''
          [''description'' \<mapsto> PStr ''second'']))) = Success \<and>
   [''description'' \<mapsto> PStr ''second''] ''source_id'' = None \<and>
   (\<exists>prior merged.
      graph_edges sample_rag (formatted ''a'', formatted ''b'') = Some prior \<and>
      prior ''source_id'' = Some (PStr ''doc-1'') \<and>
      updated_data (projr (fst (update_relation no_faults sample_md5 sample_rag ''a'' ''b''
          [''description'' \<mapsto> PStr ''second'']))) = Some merged \<and>
      graph_edges (snd (update_relation no_faults sample_md5 sample_rag ''a'' ''b''
          [''description'' \<mapsto> PStr ''second''])) (formatted ''a'', formatted ''b'') = Some merged \<and>
      merged ''source_id'' = Some (PStr ''doc-1''))"
proof -
  let ?d = "[''description'' \<mapsto> PStr ''second'']"
  let ?X = "update_relation no_faults sample_md5 sample_rag ''a'' ''b'' ?d"
  have run: "?X = (Inr (projr (fst ?X)), snd ?X)"
    by (simp add: sample_update_relation prod_eq_iff)
  have ok: "status (projr (fst ?X)) = Success"
    by (simp add: sample_update_relation)
  have om: "?d ''source_id'' = None" by simp
  from update_relation_preserves_source_id [OF run ok om] obtain prior merged where
    p: "graph_edges sample_rag (formatted ''a'', formatted ''b'') = Some prior"
      "updated_data (projr (fst ?X)) = Some merged"
      "graph_edges (snd ?X) (formatted ''a'', formatted ''b'') = Some merged"
      "merged ''source_id'' = prior ''source_id''"
    by blast
  from p(1) have "prior ''source_id'' = Some (PStr ''doc-1'')"
    by (auto simp: graph_edges_def sample_defs)
  with p ok om show ?thesis by auto
qed

subsection \<open>The merge of \<open>update_entity\<close>\<close>

lemma update_entity_success:
  assumes "update_entity flt md5 r n d = (Inr res, r')" and "status res = Success"
  shows "\<exists>cur v. graph_nodes r n = Some cur \<and> entities_vdb r = Some v \<and>
     res = \<lparr>status = Success, message = EntityUpdated n, updated_data = Some (cur ++ d)\<rparr> \<and>
     graph_nodes r' = (graph_nodes r)(n \<mapsto> cur ++ d) \<and>
     graph_edges r' = graph_edges r \<and>
     entities_vdb r' = Some (vdb_store [entity_record md5 n (cur ++ d)] v) \<and>
     relationships_vdb r' = relationships_vdb r \<and>
     calls r' = calls r @
       [HasNode n, GetNode n, UpsertNode n (cur ++ d),
        Upsert EntitiesVdb [entity_record md5 n (cur ++ d)]]
       @ map IndexDoneCallback (storage_insts r)"
  using update_entity_Inr [OF assms(1)] assms(2)
  by (auto simp: graph_nodes_def graph_edges_def split: option.splits)

lemma update_entity_failed:
  assumes "update_entity flt md5 r n d = (Inr res, r')" and "status res = Failed"
  shows "graph_nodes r n = None \<and> chunk_entity_relation_graph r \<noteq> None \<and>
     res = \<lparr>status = Failed, message = EntityNotFound n, updated_data = None\<rparr> \<and>
     r' = r\<lparr>calls := calls r @ [HasNode n]\<rparr>"
  using update_entity_Inr [OF assms(1)] assms(2)
  by (auto simp: graph_nodes_def graph_edges_def split: option.splits)

lemmas update_entity_eval = update_entity_def store_defs sample_defs Let_def get_or_empty_def
  compute_mdhash_id_def

lemma paris_first_run:
  "paris_first = (Inr (projr (fst paris_first)), snd paris_first) \<and>
   status (projr (fst paris_first)) = Success"
  by (simp add: paris_first_def update_entity_eval prod_eq_iff)

lemma paris_second_run:
  "paris_second = (Inr (projr (fst paris_second)), snd paris_second) \<and>
   status (projr (fst paris_second)) = Success"
  by (simp add: paris_second_def paris_first_def update_entity_eval prod_eq_iff)

text \<open>
  C7. When an entity is merge-updated twice in sequence, both times with success, and the
  two attribute maps have disjoint key sets, the node record stored in the end (which is
  also the one returned) has the keys of the prior record and of both updates; each key
  of an update is bound to the value that update gave, and every other key keeps its
  prior value.
\<close>

theorem update_entity_twice_disjoint:
  assumes "update_entity flt md5 r entity_name d1 = (Inr res1, r1)"
    and "status res1 = Success"
    and "update_entity flt' md5 r1 entity_name d2 = (Inr res2, r2)"
    and "status res2 = Success"
    and "dom d1 \<inter> dom d2 = {}"
  shows "\<exists>prior final.
      graph_nodes r entity_name = Some prior \<and>
      graph_nodes r2 entity_name = Some final \<and>
      updated_data res2 = Some final \<and>
      dom final = dom prior \<union> dom d1 \<union> dom d2 \<and>
      (\<forall>k \<in> dom d1. final k = d1 k) \<and>
      (\<forall>k \<in> dom d2. final k = d2 k) \<and>
      (\<forall>k. k \<notin> dom d1 \<union> dom d2 \<longrightarrow> final k = prior k)"
proof -
  from update_entity_success [OF assms(1,2)] obtain prior where
    p: "graph_nodes r entity_name = Some prior" and
    n1: "graph_nodes r1 = (graph_nodes r)(entity_name \<mapsto> prior ++ d1)"
    by blast
  from update_entity_success [OF assms(3,4)] obtain cur where
    c: "graph_nodes r1 entity_name = Some cur" and
    u: "updated_data res2 = Some (cur ++ d2)" and
    n2: "graph_nodes r2 = (graph_nodes r1)(entity_name \<mapsto> cur ++ d2)"
    by auto
  from c n1 have cur: "cur = prior ++ d1" by simp
  let ?final = "(prior ++ d1) ++ d2"
  have "dom ?final = dom prior \<union> dom d1 \<union> dom d2" by auto
  moreover have "\<forall>k \<in> dom d1. ?final k = d1 k"
    using assms(5) by (auto simp: map_add_def split: option.splits)
  moreover have "\<forall>k \<in> dom d2. ?final k = d2 k"
    by (auto simp: map_add_def split: option.splits)
  moreover have "\<forall>k. k \<notin> dom d1 \<union> dom d2 \<longrightarrow> ?final k = prior k"
    by (auto simp: map_add_def split: option.splits)
  ultimately show ?thesis using p u n2 cur by auto
qed


theorem update_entity_twice_disjoint_witness:
  "status (projr (fst paris_first)) = Success \<and>
   status (projr (fst paris_second)) = Success \<and>
   dom [''entity_type'' \<mapsto> PStr ''CITY''] \<inter> dom [''population'' \<mapsto> PRaw ''2100000''] = {} \<and>
   (\<exists>final.
      graph_nodes (snd paris_second) ''PARIS'' = Some final \<and>
      updated_data (projr (fst paris_second)) = Some final \<and>
      final ''description'' = Some (PStr ''capital of France'') \<and>
      final ''entity_type'' = Some (PStr ''CITY'') \<and>
      final ''population'' = Some (PRaw ''2100000''))"
proof -
  let ?d1 = "[''entity_type'' \<mapsto> PStr ''CITY'']"
  let ?d2 = "[''population'' \<mapsto> PRaw ''2100000'']"
  have r1: "update_entity no_faults sample_md5 sample_rag ''PARIS'' ?d1 =
              (Inr (projr (fst paris_first)), snd paris_first)"
    using paris_first_run by (simp add: paris_first_def)
  have r2: "update_entity no_faults sample_md5 (snd paris_first) ''PARIS'' ?d2 =
              (Inr (projr (fst paris_second)), snd paris_second)"
    using paris_second_run by (simp add: paris_second_def)
  have s1: "status (projr (fst paris_first)) = Success" using paris_first_run by simp
  have s2: "status (projr (fst paris_second)) = Success" using paris_second_run by simp
  have dj: "dom ?d1 \<inter> dom ?d2 = {}" by simp
  from update_entity_twice_disjoint [OF r1 s1 r2 s2 dj] obtain prior final where
    f: "graph_nodes sample_rag ''PARIS'' = Some prior"
       "graph_nodes (snd paris_second) ''PARIS'' = Some final"
       "updated_data (projr (fst paris_second)) = Some final"
       "\<forall>k \<in> dom ?d1. final k = ?d1 k"
       "\<forall>k \<in> dom ?d2. final k = ?d2 k"
       "\<forall>k. k \<notin> dom ?d1 \<union> dom ?d2 \<longrightarrow> final k = prior k"
    by blast
  from f(1) have p: "prior = [''description'' \<mapsto> PStr ''capital of France'']"
    by (simp add: graph_nodes_def sample_defs)
  from f(4) have "final ''entity_type'' = Some (PStr ''CITY'')" by simp
  moreover from f(5) have "final ''population'' = Some (PRaw ''2100000'')" by simp
  moreover from f(6) p have "final ''description'' = Some (PStr ''capital of France'')" by simp
  ultimately show ?thesis using s1 s2 dj f(2,3) by blast
qed

subsection \<open>What a normal return of \<open>insert_custom_relations\<close> means\<close>

lemma relationships_vdb_upsert_Inr:
  "relationships_vdb_upsert flt kvs r = (Inr u, r') \<longleftrightarrow>
     (\<exists>v. relationships_vdb r = Some v \<and> \<not> flt (calls r) (Upsert RelationshipsVdb kvs) \<and>
          r' = r\<lparr>relationships_vdb := Some (vdb_store kvs v),
                 calls := calls r @ [Upsert RelationshipsVdb kvs]\<rparr>)"
  by (auto simp: relationships_vdb_upsert_def log_call_def split: option.splits)

lemma insert_custom_relations_Inr:
  fixes r :: rag and items :: "attrs list"
  defines "ns \<equiv> graph_nodes r"
  defines "ok \<equiv> filter (endpoints_exist (graph_nodes r)) items"
  assumes run: "insert_custom_relations flt md5 r items = (Inr res, r')"
  shows "(\<forall>item \<in> set items. well_formed item) \<and>
     (items \<noteq> [] \<longrightarrow> chunk_entity_relation_graph r \<noteq> None) \<and>
     res = \<lparr>added = map (\<lambda>item. (item_src item, item_tgt item)) ok,
            skipped = map (skip_entry ns) (filter (\<lambda>item. \<not> endpoints_exist ns item) items),
            total_added = length ok,
            total_skipped = length (filter (\<lambda>item. \<not> endpoints_exist ns item) items)\<rparr> \<and>
     graph_nodes r' = ns \<and>
     graph_edges r' = write_edges ok (graph_edges r) \<and>
     entities_vdb r' = entities_vdb r \<and>
     (if ok = []
      then relationships_vdb r' = relationships_vdb r \<and>
           calls r' = calls r @ concat (map (item_calls ns) items)
      else \<exists>v kvs. relationships_vdb r = Some v \<and>
           data_for_vdb md5 (map staged_entry ok) [] = Inr kvs \<and>
           relationships_vdb r' = Some (vdb_store kvs v) \<and>
           calls r' = calls r @ concat (map (item_calls ns) items) @
                      [Upsert RelationshipsVdb kvs] @
                      map IndexDoneCallback (storage_insts r))"
proof -
  from run obtain vars r1 where
    loop: "insert_loop flt items initial_vars r = (None, vars, r1)"
    by (auto simp: insert_custom_relations_def split: prod.splits option.splits)
  note l = insert_loop_None [OF loop, folded ns_def ok_def]
  from l have st: "all_relationships_data vars = map staged_entry ok"
    and ad: "added_relations vars = map (\<lambda>item. (item_src item, item_tgt item)) ok"
    and sk: "skipped_relations vars =
               map (skip_entry ns) (filter (\<lambda>item. \<not> endpoints_exist ns item) items)"
    and us: "update_storage vars = (ok \<noteq> [])"
    and si: "storage_insts r1 = storage_insts r"
    by (auto simp: initial_vars_def storage_insts_def)
  show ?thesis
  proof (cases "ok = []")
    case True
    with run loop st us have "r' = r1" and
      "res = \<lparr>added = added_relations vars, skipped = skipped_relations vars,
              total_added = length (added_relations vars),
              total_skipped = length (skipped_relations vars)\<rparr>"
      by (auto simp: insert_custom_relations_def Let_def)
    with l True ad sk show ?thesis by (simp add: write_edges_def ns_def)
  next
    case False
    with run loop st us obtain kvs r2 where
      d: "data_for_vdb md5 (map staged_entry ok) [] = Inr kvs" and
      u: "relationships_vdb_upsert flt kvs r1 = (Inr (), r2)" and
      f: "insert_done flt r2 = (Inr (), r')" and
      res: "res = \<lparr>added = added_relations vars, skipped = skipped_relations vars,
              total_added = length (added_relations vars),
              total_skipped = length (skipped_relations vars)\<rparr>"
      by (auto simp: insert_custom_relations_def Let_def split: sum.splits prod.splits if_splits)
    from u obtain v where
      v: "relationships_vdb r1 = Some v" and
      r2: "r2 = r1\<lparr>relationships_vdb := Some (vdb_store kvs v),
                    calls := calls r1 @ [Upsert RelationshipsVdb kvs]\<rparr>"
      by (auto simp: relationships_vdb_upsert_Inr)
    from v r2 si have si2: "storage_insts r2 = storage_insts r"
      by (auto simp: storage_insts_def)
    from insert_done_rag [OF f] si2
    have r': "r' = r2\<lparr>calls := calls r2 @ map IndexDoneCallback (storage_insts r)\<rparr>" by simp
    have gn: "graph_nodes r' = graph_nodes r1" "graph_edges r' = graph_edges r1"
      by (simp_all add: r' r2 graph_nodes_def graph_edges_def)
    from l v have v0: "relationships_vdb r = Some v" by simp
    show ?thesis
      using l False ad sk d v0 gn res unfolding r' r2 by (simp add: ns_def)
  qed
qed

subsection \<open>The result of a batch\<close>

lemmas insert_eval = insert_custom_relations_def insert_item_def initial_vars_def
  formatted_field_def required_field_def graph_edge_data_def get_or_def store_defs sample_defs
  Let_def get_or_empty_def compute_mdhash_id_def

lemma sample_batch_run:
  "fst sample_batch =
     Inr \<lparr>added = [(formatted ''a'', formatted ''b'')],
          skipped = [(formatted ''a'', formatted ''c'', TargetEntityMissing)],
          total_added = 1, total_skipped = 1\<rparr>"
  by (simp add: sample_batch_def insert_eval)

lemma well_formed_fields:
  "well_formed item \<Longrightarrow>
     \<exists>s t. item ''src_id'' = Some (PStr s) \<and> item ''tgt_id'' = Some (PStr t) \<and>
           item_src item = formatted s \<and> item_tgt item = formatted t"
  by (auto simp: well_formed_def item_src_def item_tgt_def get_or_empty_def
      split: option.splits pyval.splits)

text \<open>
  C10. When \<open>insert_custom_relations\<close> returns normally, the added list has one entry
  for each item whose two endpoints exist and the skipped list one entry for each other
  item, both in the order of the input: every item gives exactly one entry to exactly one
  list. The two totals are the lengths of the lists and add up to the number of items.
  The entries carry the normalized names \<open>formatted s\<close> and \<open>formatted t\<close> of the
  strings \<open>s\<close> and \<open>t\<close> that the item has under \<open>src_id\<close> and \<open>tgt_id\<close>.
\<close>

theorem insert_custom_relations_result_invariants:
  assumes "insert_custom_relations flt md5 r relations_data = (Inr res, r')"
  shows "added res = map (\<lambda>item. (item_src item, item_tgt item))
                       (filter (endpoints_exist (graph_nodes r)) relations_data) \<and>
         skipped res = map (skip_entry (graph_nodes r))
                         (filter (\<lambda>item. \<not> endpoints_exist (graph_nodes r) item) relations_data) \<and>
         total_added res = length (added res) \<and>
         total_skipped res = length (skipped res) \<and>
         total_added res + total_skipped res = length relations_data \<and>
         (\<forall>item \<in> set relations_data. \<exists>s t.
            item ''src_id'' = Some (PStr s) \<and> item ''tgt_id'' = Some (PStr t) \<and>
            item_src item = formatted s \<and> item_tgt item = formatted t)"
proof -
  note c = insert_custom_relations_Inr [OF assms]
  from c have wf: "\<forall>item \<in> set relations_data. well_formed item" by simp
  from c have res: "res = \<lparr>added = map (\<lambda>item. (item_src item, item_tgt item))
                       (filter (endpoints_exist (graph_nodes r)) relations_data),
            skipped = map (skip_entry (graph_nodes r))
                       (filter (\<lambda>item. \<not> endpoints_exist (graph_nodes r) item) relations_data),
            total_added = length (filter (endpoints_exist (graph_nodes r)) relations_data),
            total_skipped = length (filter (\<lambda>item. \<not> endpoints_exist (graph_nodes r) item)
                                      relations_data)\<rparr>"
    by simp
  have len: "length (filter (endpoints_exist (graph_nodes r)) relations_data) +
             length (filter (\<lambda>item. \<not> endpoints_exist (graph_nodes r) item) relations_data) =
             length relations_data"
    by (rule sum_length_filter_compl)
  from wf have "\<forall>item \<in> set relations_data. \<exists>s t.
            item ''src_id'' = Some (PStr s) \<and> item ''tgt_id'' = Some (PStr t) \<and>
            item_src item = formatted s \<and> item_tgt item = formatted t"
    by (blast dest: well_formed_fields)
  with len show ?thesis unfolding res by simp
qed

theorem insert_custom_relations_result_invariants_witness:
  "added (projr (fst sample_batch)) = [(formatted ''a'', formatted ''b'')] \<and>
   skipped (projr (fst sample_batch)) = [(formatted ''a'', formatted ''c'', TargetEntityMissing)] \<and>
   total_added (projr (fst sample_batch)) = length (added (projr (fst sample_batch))) \<and>
   total_skipped (projr (fst sample_batch)) = length (skipped (projr (fst sample_batch))) \<and>
   total_added (projr (fst sample_batch)) + total_skipped (projr (fst sample_batch)) =
     length [relation_item ''a'' ''b'', relation_item ''a'' ''c''] \<and>
   (\<exists>s t. relation_item ''a'' ''c'' ''src_id'' = Some (PStr s) \<and>
      relation_item ''a'' ''c'' ''tgt_id'' = Some (PStr t) \<and>
      item_src (relation_item ''a'' ''c'') = formatted s \<and>
      item_tgt (relation_item ''a'' ''c'') = formatted t)"
proof -
  have run: "insert_custom_relations no_faults sample_md5 sample_rag
       [relation_item ''a'' ''b'', relation_item ''a'' ''c''] =
       (Inr (projr (fst sample_batch)), snd sample_batch)"
    using sample_batch_run by (simp add: sample_batch_def prod_eq_iff)
  note t = insert_custom_relations_result_invariants [OF run]
  have a: "added (projr (fst sample_batch)) = [(formatted ''a'', formatted ''b'')]"
    and b: "skipped (projr (fst sample_batch)) =
              [(formatted ''a'', formatted ''c'', TargetEntityMissing)]"
    by (simp_all add: sample_batch_run)
  from t have "\<forall>item \<in> set [relation_item ''a'' ''b'', relation_item ''a'' ''c'']. \<exists>s t.
      item ''src_id'' = Some (PStr s) \<and> item ''tgt_id'' = Some (PStr t) \<and>
      item_src item = formatted s \<and> item_tgt item = formatted t"
    by blast
  then have c: "\<exists>s t. relation_item ''a'' ''c'' ''src_id'' = Some (PStr s) \<and>
      relation_item ''a'' ''c'' ''tgt_id'' = Some (PStr t) \<and>
      item_src (relation_item ''a'' ''c'') = formatted s \<and>
      item_tgt (relation_item ''a'' ''c'') = formatted t"
    by simp
  from t a b c show ?thesis by blast
qed

subsection \<open>The batched upsert of the relation index\<close>

lemma new_calls_append: "calls r' = calls r @ cs \<Longrightarrow> new_calls r r' = cs"
  by (simp add: new_calls_def)

lemma no_upsert_in_item_calls: "filter is_vdb_upsert (concat (map (item_calls ns) items)) = []"
  by (induction items) (simp_all add: item_calls_def)

lemma no_upsert_in_callbacks: "filter is_vdb_upsert (map IndexDoneCallback ss) = []"
  by (induction ss) simp_all

lemma set_alist_update: "set (AList.update k v al) \<subseteq> insert (k, v) (set al)"
  by (induction al) auto

lemma data_for_vdb_keys:
  "data_for_vdb md5 dps acc = Inr kvs \<Longrightarrow>
     fst ` set kvs = fst ` set acc \<union> rel_key md5 ` set dps"
proof (induction dps arbitrary: acc)
  case Nil
  then show ?case by simp
next
  case (Cons dp dps)
  from Cons.prems obtain c where
    "data_for_vdb md5 dps (AList.update (rel_key md5 dp)
        (RelationPayload (dp_src_id dp) (dp_tgt_id dp) c) acc) = Inr kvs"
    by (auto simp: rel_key_def split: sum.splits)
  from Cons.IH [OF this] show ?case by (auto simp: dom_update)
qed

lemma data_for_vdb_distinct:
  "data_for_vdb md5 dps acc = Inr kvs \<Longrightarrow> distinct (map fst acc) \<Longrightarrow> distinct (map fst kvs)"
proof (induction dps arbitrary: acc)
  case Nil
  then show ?case by simp
next
  case (Cons dp dps)
  from Cons.prems(1) obtain c where
    "data_for_vdb md5 dps (AList.update (rel_key md5 dp)
        (RelationPayload (dp_src_id dp) (dp_tgt_id dp) c) acc) = Inr kvs"
    by (auto simp: rel_key_def split: sum.splits)
  from Cons.IH [OF this] Cons.prems(2) show ?case by (simp add: distinct_update)
qed

lemma data_for_vdb_entries:
  "data_for_vdb md5 dps acc = Inr kvs \<Longrightarrow> (k, p) \<in> set kvs \<Longrightarrow>
     (k, p) \<in> set acc \<or>
     (\<exists>dp \<in> set dps. \<exists>kw de. dp_keywords dp = PStr kw \<and> dp_description dp = PStr de \<and>
        k = rel_key md5 dp \<and>
        p = RelationPayload (dp_src_id dp) (dp_tgt_id dp)
              (kw @ dp_src_id dp @ dp_tgt_id dp @ de))"
proof (induction dps arbitrary: acc)
  case Nil
  then show ?case by simp
next
  case (Cons dp dps)
  from Cons.prems(1) obtain kw de where
    kw: "dp_keywords dp = PStr kw" and de: "dp_description dp = PStr de" and
    rest: "data_for_vdb md5 dps (AList.update (rel_key md5 dp)
        (RelationPayload (dp_src_id dp) (dp_tgt_id dp) (kw @ dp_src_id dp @ dp_tgt_id dp @ de))
        acc) = Inr kvs"
    by (auto simp: rel_key_def relation_content_Inr split: sum.splits)
  from Cons.IH [OF rest Cons.prems(2)] kw de set_alist_update
  show ?case by fastforce
qed

lemma sample_batch_skipped_run:
  "fst sample_batch_skipped =
     Inr \<lparr>added = [],
          skipped = [(formatted ''a'', formatted ''c'', TargetEntityMissing)],
          total_added = 0, total_skipped = 1\<rparr>"
  by (simp add: sample_batch_skipped_def insert_eval)

lemmas item_eval = endpoints_exist_def item_src_def item_tgt_def get_or_empty_def
  graph_nodes_def staged_entry_def sample_defs

lemma sample_endpoints:
  "endpoints_exist (graph_nodes sample_rag) (relation_item ''a'' ''b'')"
  "\<not> endpoints_exist (graph_nodes sample_rag) (relation_item ''a'' ''c'')"
  by (simp_all add: item_eval)

lemma alist_update_new: "k \<notin> fst ` set al \<Longrightarrow> AList.update k v al = al @ [(k, v)]"
  by (induction al) auto

lemma data_for_vdb_step:
  "data_for_vdb md5 (dp # dps) acc = Inr kvs \<Longrightarrow>
     data_for_vdb md5 dps (AList.update (fst (staged_record md5 dp))
        (snd (staged_record md5 dp)) acc) = Inr kvs"
  by (auto simp: staged_record_def rel_key_def relation_content_Inr split: sum.splits)

lemma data_for_vdb_map:
  "data_for_vdb md5 dps acc = Inr kvs \<Longrightarrow>
     map_of kvs = map_of acc ++ map_of (rev (map (staged_record md5) dps))"
proof (induction dps arbitrary: acc)
  case Nil
  then show ?case by simp
next
  case (Cons dp dps)
  obtain k p where kp: "staged_record md5 dp = (k, p)" by (cases "staged_record md5 dp")
  from data_for_vdb_step [OF Cons.prems] kp
  have "data_for_vdb md5 dps (AList.update k p acc) = Inr kvs" by simp
  from Cons.IH [OF this]
  have "map_of kvs = (map_of acc)(k \<mapsto> p) ++ map_of (rev (map (staged_record md5) dps))"
    by (simp only: update_conv')
  also have "\<dots> = map_of acc ++ map_of (rev (map (staged_record md5) (dp # dps)))"
    by (rule ext) (simp add: kp map_add_def split: option.splits)
  finally show ?case .
qed

lemma data_for_vdb_all:
  "data_for_vdb md5 dps acc = Inr kvs \<Longrightarrow> distinct (map (rel_key md5) dps) \<Longrightarrow>
     \<forall>dp \<in> set dps. rel_key md5 dp \<notin> fst ` set acc \<Longrightarrow>
     kvs = acc @ map (staged_record md5) dps"
proof (induction dps arbitrary: acc)
  case Nil
  then show ?case by simp
next
  case (Cons dp dps)
  have k: "fst (staged_record md5 dp) = rel_key md5 dp" by (simp add: staged_record_def)
  from Cons.prems(3) have new: "rel_key md5 dp \<notin> fst ` set acc" by simp
  let ?acc = "acc @ [staged_record md5 dp]"
  have "AList.update (fst (staged_record md5 dp)) (snd (staged_record md5 dp)) acc = ?acc"
    using alist_update_new [of "fst (staged_record md5 dp)" acc "snd (staged_record md5 dp)"]
      new k by (simp add: staged_record_def)
  with data_for_vdb_step [OF Cons.prems(1)]
  have run: "data_for_vdb md5 dps ?acc = Inr kvs" by simp
  from Cons.prems(2) have d: "distinct (map (rel_key md5) dps)" by simp
  have "\<forall>x \<in> set dps. rel_key md5 x \<notin> fst ` set ?acc"
  proof
    fix x
    assume x: "x \<in> set dps"
    then have "rel_key md5 x \<in> rel_key md5 ` set dps" by (rule imageI)
    moreover from Cons.prems(2) have "rel_key md5 dp \<notin> rel_key md5 ` set dps" by simp
    ultimately have "rel_key md5 x \<noteq> rel_key md5 dp" by metis
    moreover from Cons.prems(3) x have "rel_key md5 x \<notin> fst ` set acc" by simp
    ultimately show "rel_key md5 x \<notin> fst ` set ?acc" by (simp add: k)
  qed
  from Cons.IH [OF run d this] show ?case by simp
qed

lemma sample_staged_record:
  "staged_record sample_md5 (staged_entry (relation_item ''a'' ''b'')) =
     (''rel-'' @ formatted ''a'' @ formatted ''b'',
      RelationPayload (formatted ''a'') (formatted ''b'')
        (''kw'' @ formatted ''a'' @ formatted ''b'' @ ''linked''))"
  by (simp add: staged_record_def rel_key_def compute_mdhash_id_def staged_entry_def
      item_src_def item_tgt_def relation_item_def get_or_empty_def sample_md5_def)

text \<open>
  C8, as amended. When \<open>insert_custom_relations\<close> returns normally and added at least
  one relation, it made exactly one upsert call to a vector index: a call to the relation
  index with the dictionary \<open>data_for_vdb\<close> of the staged records. The dictionary has one
  record for each key of a staged record, namely the record of the last staged
  dictionary with that key; when the keys of the staged dictionaries are distinct, it is
  the list of all their records, in order. When nothing was added, no upsert call was
  made. For a batch of two items of which exactly one has both endpoints, the totals
  are 1 and 1 and the one upsert call carries the one record of that item.
\<close>

theorem insert_custom_relations_single_upsert:
  assumes "insert_custom_relations flt md5 r relations_data = (Inr res, r')"
  shows
    "(0 < total_added res \<longrightarrow>
        (\<exists>kvs. filter is_vdb_upsert (new_calls r r') = [Upsert RelationshipsVdb kvs] \<and>
           data_for_vdb md5
             (map staged_entry (filter (endpoints_exist (graph_nodes r)) relations_data)) [] =
             Inr kvs \<and>
           distinct (map fst kvs) \<and>
           fst ` set kvs =
             rel_key md5 ` staged_entry `
               set (filter (endpoints_exist (graph_nodes r)) relations_data) \<and>
           map_of kvs =
             map_of (rev (map (staged_record md5)
               (map staged_entry (filter (endpoints_exist (graph_nodes r)) relations_data)))) \<and>
           (distinct (map (rel_key md5)
               (map staged_entry (filter (endpoints_exist (graph_nodes r)) relations_data))) \<longrightarrow>
            kvs = map (staged_record md5)
               (map staged_entry (filter (endpoints_exist (graph_nodes r)) relations_data))))) \<and>
     (total_added res = 0 \<longrightarrow> filter is_vdb_upsert (new_calls r r') = []) \<and>
     (length relations_data = 2 \<and>
      length (filter (endpoints_exist (graph_nodes r)) relations_data) = 1 \<longrightarrow>
        total_added res = 1 \<and> total_skipped res = 1 \<and>
        (\<exists>item. filter (endpoints_exist (graph_nodes r)) relations_data = [item] \<and>
           filter is_vdb_upsert (new_calls r r') =
             [Upsert RelationshipsVdb [staged_record md5 (staged_entry item)]]))"
proof -
  let ?ok = "filter (endpoints_exist (graph_nodes r)) relations_data"
  let ?no = "filter (\<lambda>item. \<not> endpoints_exist (graph_nodes r) item) relations_data"
  let ?staged = "map staged_entry ?ok"
  note c = insert_custom_relations_Inr [OF assms]
  from c have ta: "total_added res = length ?ok" and ts: "total_skipped res = length ?no"
    by simp_all
  have len: "length ?ok + length ?no = length relations_data"
    by (rule sum_length_filter_compl)
  have none: "filter is_vdb_upsert (new_calls r r') = []" if "?ok = []"
  proof -
    from c that have "calls r' = calls r @ concat (map (item_calls (graph_nodes r)) relations_data)"
      by simp
    from new_calls_append [OF this] show ?thesis by (simp add: no_upsert_in_item_calls)
  qed
  have some: "\<exists>kvs. filter is_vdb_upsert (new_calls r r') = [Upsert RelationshipsVdb kvs] \<and>
           data_for_vdb md5 ?staged [] = Inr kvs \<and>
           distinct (map fst kvs) \<and>
           fst ` set kvs = rel_key md5 ` staged_entry ` set ?ok \<and>
           map_of kvs = map_of (rev (map (staged_record md5) ?staged)) \<and>
           (distinct (map (rel_key md5) ?staged) \<longrightarrow> kvs = map (staged_record md5) ?staged)"
    if "?ok \<noteq> []"
  proof -
    from c that obtain kvs where
      d: "data_for_vdb md5 ?staged [] = Inr kvs" and
      cs: "calls r' = calls r @ (concat (map (item_calls (graph_nodes r)) relations_data) @
                      [Upsert RelationshipsVdb kvs] @
                      map IndexDoneCallback (storage_insts r))"
      by auto
    from new_calls_append [OF cs]
    have "filter is_vdb_upsert (new_calls r r') = [Upsert RelationshipsVdb kvs]"
      by (simp add: no_upsert_in_item_calls no_upsert_in_callbacks)
    moreover from data_for_vdb_distinct [OF d] have "distinct (map fst kvs)" by simp
    moreover from data_for_vdb_keys [OF d]
    have "fst ` set kvs = rel_key md5 ` staged_entry ` set ?ok" by simp
    moreover from data_for_vdb_map [OF d]
    have "map_of kvs = map_of (rev (map (staged_record md5) ?staged))" by simp
    moreover have "kvs = map (staged_record md5) ?staged"
      if "distinct (map (rel_key md5) ?staged)"
      using data_for_vdb_all [OF d that] by simp
    ultimately show ?thesis using d by blast
  qed
  have one: "\<exists>item. ?ok = [item] \<and>
           filter is_vdb_upsert (new_calls r r') =
             [Upsert RelationshipsVdb [staged_record md5 (staged_entry item)]]"
    if "length ?ok = 1"
  proof -
    from that obtain item where item: "?ok = [item]"
      by (cases ?ok) auto
    then have ne: "?ok \<noteq> []" by simp
    from some [OF ne] obtain kvs where
      u: "filter is_vdb_upsert (new_calls r r') = [Upsert RelationshipsVdb kvs]" and
      a: "distinct (map (rel_key md5) ?staged) \<longrightarrow> kvs = map (staged_record md5) ?staged"
      by blast
    from a have "kvs = [staged_record md5 (staged_entry item)]"
      unfolding item by simp
    with u item show ?thesis by blast
  qed
  from ta ts len none some one show ?thesis by auto
qed

theorem insert_custom_relations_single_upsert_witness:
  "0 < total_added (projr (fst sample_batch)) \<and>
   length [relation_item ''a'' ''b'', relation_item ''a'' ''c''] = 2 \<and>
   filter (endpoints_exist (graph_nodes sample_rag))
     [relation_item ''a'' ''b'', relation_item ''a'' ''c''] = [relation_item ''a'' ''b''] \<and>
   distinct (map (rel_key sample_md5) (map staged_entry [relation_item ''a'' ''b''])) \<and>
   total_added (projr (fst sample_batch)) = 1 \<and>
   total_skipped (projr (fst sample_batch)) = 1 \<and>
   filter is_vdb_upsert (new_calls sample_rag (snd sample_batch)) =
     [Upsert RelationshipsVdb
        [(''rel-'' @ formatted ''a'' @ formatted ''b'',
          RelationPayload (formatted ''a'') (formatted ''b'')
            (''kw'' @ formatted ''a'' @ formatted ''b'' @ ''linked''))]] \<and>
   total_added (projr (fst sample_batch_skipped)) = 0 \<and>
   filter is_vdb_upsert (new_calls sample_rag (snd sample_batch_skipped)) = []"
proof -
  let ?items = "[relation_item ''a'' ''b'', relation_item ''a'' ''c'']"
  have run: "insert_custom_relations no_faults sample_md5 sample_rag ?items =
       (Inr (projr (fst sample_batch)), snd sample_batch)"
    using sample_batch_run by (simp add: sample_batch_def prod_eq_iff)
  have run0: "insert_custom_relations no_faults sample_md5 sample_rag [relation_item ''a'' ''c''] =
       (Inr (projr (fst sample_batch_skipped)), snd sample_batch_skipped)"
    using sample_batch_skipped_run by (simp add: sample_batch_skipped_def prod_eq_iff)
  have ta: "total_added (projr (fst sample_batch)) = 1"
    and t0: "total_added (projr (fst sample_batch_skipped)) = 0"
    by (simp_all add: sample_batch_run sample_batch_skipped_run)
  have ok: "filter (endpoints_exist (graph_nodes sample_rag)) ?items = [relation_item ''a'' ''b'']"
    by (simp add: sample_endpoints)
  have dk: "distinct (map (rel_key sample_md5) (map staged_entry [relation_item ''a'' ''b'']))"
    by simp
  have pos: "0 < total_added (projr (fst sample_batch))" using ta by simp
  have two: "length ?items = 2 \<and>
      length (filter (endpoints_exist (graph_nodes sample_rag)) ?items) = 1"
    unfolding ok by simp
  note t1 = insert_custom_relations_single_upsert [OF run, THEN conjunct1, rule_format, OF pos]
  note t2 = insert_custom_relations_single_upsert [OF run0, THEN conjunct2, THEN conjunct1,
      rule_format, OF t0]
  note t3 = insert_custom_relations_single_upsert [OF run, THEN conjunct2, THEN conjunct2,
      rule_format, OF two]
  from t1 obtain kvs where
    u: "filter is_vdb_upsert (new_calls sample_rag (snd sample_batch)) =
          [Upsert RelationshipsVdb kvs]" and
    a: "distinct (map (rel_key sample_md5)
          (map staged_entry (filter (endpoints_exist (graph_nodes sample_rag)) ?items))) \<longrightarrow>
        kvs = map (staged_record sample_md5)
          (map staged_entry (filter (endpoints_exist (graph_nodes sample_rag)) ?items))"
    by (elim exE conjE)
  from a dk have "kvs = [staged_record sample_md5 (staged_entry (relation_item ''a'' ''b''))]"
    unfolding ok by simp
  with u have up: "filter is_vdb_upsert (new_calls sample_rag (snd sample_batch)) =
     [Upsert RelationshipsVdb
        [(''rel-'' @ formatted ''a'' @ formatted ''b'',
          RelationPayload (formatted ''a'') (formatted ''b'')
            (''kw'' @ formatted ''a'' @ formatted ''b'' @ ''linked''))]]"
    by (simp add: sample_staged_record)
  from t3 have ts: "total_skipped (projr (fst sample_batch)) = 1" by (elim conjE)
  from pos two ok dk ta ts up t0 t2 show ?thesis by (intro conjI) simp_all
qed

text \<open>
  The claim as stated fails on two batches of the sample. In the first, the second item
  has a number as \<open>src_id\<close>: the edge of the first item is written, then the loop raises
  and no upsert call reaches the relation index. In the second, both items name the pair
  \<open>A\<close>, \<open>B\<close>: two relations are added and two records staged, and the one upsert call
  carries one record, that of the second item.
\<close>

theorem single_upsert_counterexample:
  "fst sample_batch_raises = Inl AttributeError \<and>
   map store_of (filter is_write (new_calls sample_rag (snd sample_batch_raises))) =
     [ChunkEntityRelationGraph] \<and>
   filter is_vdb_upsert (new_calls sample_rag (snd sample_batch_raises)) = [] \<and>
   fst sample_batch_same_pair =
     Inr \<lparr>added = [(formatted ''a'', formatted ''b''), (formatted ''a'', formatted ''b'')],
          skipped = [], total_added = 2, total_skipped = 0\<rparr> \<and>
   filter is_vdb_upsert (new_calls sample_rag (snd sample_batch_same_pair)) =
     [Upsert RelationshipsVdb
        [(''rel-'' @ formatted ''a'' @ formatted ''b'',
          RelationPayload (formatted ''a'') (formatted ''b'')
            (''kw'' @ formatted ''a'' @ formatted ''b'' @ ''again''))]]"
  by (simp add: sample_batch_raises_def sample_batch_same_pair_def insert_eval new_calls_def)

subsection \<open>The preconditions of \<open>update_relation\<close>\<close>

lemma graph_call_run:
  "chunk_entity_relation_graph r = Some g \<Longrightarrow> \<not> flt (calls r) c \<Longrightarrow>
     graph_call flt c f r =
       (Inr (fst (f g)),
        r\<lparr>chunk_entity_relation_graph := Some (snd (f g)), calls := calls r @ [c]\<rparr>)"
  by (simp add: graph_call_def log_call_def)

text \<open>
  C9. With a graph store whose two existence checks do not fail, \<open>update_relation\<close>
  returns a result (it does not raise) of status \<open>Failed\<close> without data: naming the
  source entity when the source is missing (whether or not the target is); naming the
  target entity when the source exists and the target is missing; naming the relation
  when both exist, the edge check does not fail and there is no edge. The three messages
  are different sentences. In each case the \<open>rag\<close> object is as before except for the
  log, which has gained the existence checks only: nothing is written to the graph store
  or to a vector index, and no store is finalized.
\<close>

theorem update_relation_preconditions:
  assumes "chunk_entity_relation_graph r \<noteq> None"
    and "\<not> flt (calls r) (HasNode (formatted src_entity))"
    and "\<not> flt (calls r @ [HasNode (formatted src_entity)]) (HasNode (formatted tgt_entity))"
  shows
    "(graph_nodes r (formatted src_entity) = None \<longrightarrow>
        update_relation flt md5 r src_entity tgt_entity relation_data =
          (Inr \<lparr>status = Failed, message = SourceEntityNotFound src_entity,
                updated_data = None\<rparr>,
           r\<lparr>calls := calls r @ [HasNode (formatted src_entity),
                                   HasNode (formatted tgt_entity)]\<rparr>)) \<and>
     (graph_nodes r (formatted src_entity) \<noteq> None \<and>
      graph_nodes r (formatted tgt_entity) = None \<longrightarrow>
        update_relation flt md5 r src_entity tgt_entity relation_data =
          (Inr \<lparr>status = Failed, message = TargetEntityNotFound tgt_entity,
                updated_data = None\<rparr>,
           r\<lparr>calls := calls r @ [HasNode (formatted src_entity),
                                   HasNode (formatted tgt_entity)]\<rparr>)) \<and>
     (graph_nodes r (formatted src_entity) \<noteq> None \<and>
      graph_nodes r (formatted tgt_entity) \<noteq> None \<and>
      graph_edges r (formatted src_entity, formatted tgt_entity) = None \<and>
      \<not> flt (calls r @ [HasNode (formatted src_entity), HasNode (formatted tgt_entity)])
            (HasEdge (formatted src_entity) (formatted tgt_entity)) \<longrightarrow>
        update_relation flt md5 r src_entity tgt_entity relation_data =
          (Inr \<lparr>status = Failed, message = RelationNotFound src_entity tgt_entity,
                updated_data = None\<rparr>,
           r\<lparr>calls := calls r @ [HasNode (formatted src_entity),
                                   HasNode (formatted tgt_entity),
                                   HasEdge (formatted src_entity) (formatted tgt_entity)]\<rparr>))"
proof -
  from assms(1) obtain g where g: "chunk_entity_relation_graph r = Some g" by auto
  let ?fs = "formatted src_entity" and ?ft = "formatted tgt_entity"
  let ?r1 = "r\<lparr>calls := calls r @ [HasNode ?fs]\<rparr>"
  let ?r2 = "r\<lparr>calls := calls r @ [HasNode ?fs, HasNode ?ft]\<rparr>"
  let ?r3 = "r\<lparr>calls := calls r @ [HasNode ?fs, HasNode ?ft, HasEdge ?fs ?ft]\<rparr>"
  have h1: "has_node flt ?fs r = (Inr (nodes g ?fs \<noteq> None), ?r1)"
    using g assms(2) by (simp add: has_node_def graph_call_run)
  have h2: "has_node flt ?ft ?r1 = (Inr (nodes g ?ft \<noteq> None), ?r2)"
    using g assms(3) by (simp add: has_node_def graph_call_run)
  have h3: "has_edge flt ?fs ?ft ?r2 = (Inr (edges g (?fs, ?ft) \<noteq> None), ?r3)"
    if "\<not> flt (calls r @ [HasNode ?fs, HasNode ?ft]) (HasEdge ?fs ?ft)"
    using g that by (simp add: has_edge_def graph_call_run)
  show ?thesis
    using g h1 h2 h3
    by (simp add: update_relation_def Let_def graph_nodes_def graph_edges_def)
qed

theorem update_relation_preconditions_witness:
  "update_relation no_faults sample_md5 sample_rag ''c'' ''d'' Map.empty =
     (Inr \<lparr>status = Failed, message = SourceEntityNotFound ''c'', updated_data = None\<rparr>,
      sample_rag\<lparr>calls := [HasNode (formatted ''c''), HasNode (formatted ''d'')]\<rparr>) \<and>
   update_relation no_faults sample_md5 sample_rag ''a'' ''c'' Map.empty =
     (Inr \<lparr>status = Failed, message = TargetEntityNotFound ''c'', updated_data = None\<rparr>,
      sample_rag\<lparr>calls := [HasNode (formatted ''a''), HasNode (formatted ''c'')]\<rparr>) \<and>
   update_relation no_faults sample_md5 sample_rag ''b'' ''a'' Map.empty =
     (Inr \<lparr>status = Failed, message = RelationNotFound ''b'' ''a'', updated_data = None\<rparr>,
      sample_rag\<lparr>calls := [HasNode (formatted ''b''), HasNode (formatted ''a''),
                              HasEdge (formatted ''b'') (formatted ''a'')]\<rparr>)"
proof -
  have g: "chunk_entity_relation_graph sample_rag \<noteq> None" by (simp add: sample_rag_def)
  have c: "calls sample_rag = []" by (simp add: sample_rag_def)
  have n: "graph_nodes sample_rag (formatted ''c'') = None"
      "graph_nodes sample_rag (formatted ''a'') \<noteq> None"
      "graph_nodes sample_rag (formatted ''b'') \<noteq> None"
      "graph_edges sample_rag (formatted ''b'', formatted ''a'') = None"
    by (simp_all add: graph_nodes_def graph_edges_def sample_defs)
  have f: "\<And>tr c. \<not> no_faults tr c" by (simp add: no_faults_def)
  from update_relation_preconditions [where r = sample_rag and flt = no_faults and
         src_entity = "''c''" and tgt_entity = "''d''" and ?md5.0 = sample_md5 and
         relation_data = Map.empty, OF g f f]
       update_relation_preconditions [where r = sample_rag and flt = no_faults and
         src_entity = "''a''" and tgt_entity = "''c''" and ?md5.0 = sample_md5 and
         relation_data = Map.empty, OF g f f]
       update_relation_preconditions [where r = sample_rag and flt = no_faults and
         src_entity = "''b''" and tgt_entity = "''a''" and ?md5.0 = sample_md5 and
         relation_data = Map.empty, OF g f f]
       n f c
  show ?thesis by simp
qed

subsection \<open>An item with a missing endpoint\<close>

lemma write_edges_other:
  "\<forall>item \<in> set items. (item_src item, item_tgt item) \<noteq> k \<Longrightarrow> write_edges items es k = es k"
  unfolding write_edges_def by (induction items arbitrary: es) auto

lemma upsert_edge_in_item_calls:
  "UpsertEdge s t d \<in> set (concat (map (item_calls ns) items)) \<Longrightarrow>
     \<exists>item \<in> set items. endpoints_exist ns item \<and> s = item_src item \<and> t = item_tgt item"
  by (auto simp: item_calls_def split: if_splits)

lemma upsert_in_item_calls: "Upsert st kvs \<notin> set (concat (map (item_calls ns) items))"
  by (auto simp: item_calls_def split: if_splits)

lemma fold_upd_lookup:
  "fold (\<lambda>(k, p) m. m(k \<mapsto> p)) kvs v k = Some p \<Longrightarrow> (k, p) \<in> set kvs \<or> v k = Some p"
proof (induction kvs arbitrary: v)
  case Nil
  then show ?case by simp
next
  case (Cons kv kvs)
  obtain a b where kv: "kv = (a, b)" by (cases kv)
  from Cons.prems have "fold (\<lambda>(k, p) m. m(k \<mapsto> p)) kvs (v(a \<mapsto> b)) k = Some p"
    unfolding kv by (simp only: fold_simps prod.case)
  from Cons.IH [OF this] have "(k, p) \<in> set kvs \<or> (v(a \<mapsto> b)) k = Some p" .
  then show ?case using kv by (auto split: if_splits)
qed

lemma vdb_store_lookup:
  "vdb_store kvs v k = Some p \<Longrightarrow> (k, p) \<in> set kvs \<or> v k = Some p"
  unfolding vdb_store_def by (rule fold_upd_lookup)

lemma insert_item_skip:
  assumes "item ''src_id'' = Some (PStr a)" and "item ''tgt_id'' = Some (PStr b)"
    and "item ''description'' \<noteq> None" and "item ''keywords'' \<noteq> None"
    and "graph_nodes r (formatted a) = None \<or> graph_nodes r (formatted b) = None"
    and "chunk_entity_relation_graph r \<noteq> None"
    and "\<not> flt (calls r) (HasNode (formatted a))"
    and "\<not> flt (calls r @ [HasNode (formatted a)]) (HasNode (formatted b))"
  shows "insert_item flt item vars r =
     (None,
      vars\<lparr>skipped_relations := skipped_relations vars @
         [(formatted a, formatted b,
           if graph_nodes r (formatted a) = None then SourceEntityMissing
           else TargetEntityMissing)]\<rparr>,
      r\<lparr>calls := calls r @ [HasNode (formatted a), HasNode (formatted b)]\<rparr>)"
proof -
  from assms(6) obtain g where g: "chunk_entity_relation_graph r = Some g" by auto
  let ?r1 = "r\<lparr>calls := calls r @ [HasNode (formatted a)]\<rparr>"
  have h1: "has_node flt (formatted a) r = (Inr (nodes g (formatted a) \<noteq> None), ?r1)"
    using g assms(7) by (simp add: has_node_def graph_call_run)
  have h2: "has_node flt (formatted b) ?r1 =
      (Inr (nodes g (formatted b) \<noteq> None),
       r\<lparr>calls := calls r @ [HasNode (formatted a), HasNode (formatted b)]\<rparr>)"
    using g assms(8) by (simp add: has_node_def graph_call_run)
  from assms(3,4) obtain de kw where
    f: "item ''description'' = Some de" "item ''keywords'' = Some kw" by auto
  show ?thesis
    using assms(1,2,5) f g h1 h2
    by (auto simp: insert_item_def formatted_field_def required_field_def graph_nodes_def)
qed

lemma sample_batch_reversed_run:
  "fst sample_batch_reversed =
     Inr \<lparr>added = [],
          skipped = [(formatted ''c'', formatted ''b'', SourceEntityMissing)],
          total_added = 0, total_skipped = 1\<rparr>"
  by (simp add: sample_batch_reversed_def insert_eval)

text \<open>
  C6. Let an item of a batch have the strings \<open>a\<close> and \<open>b\<close> as \<open>src_id\<close> and
  \<open>tgt_id\<close>, and let exactly one of the two normalized names be a node of the graph.
  When \<open>insert_custom_relations\<close> returns normally on a batch with this item, the
  skipped list has the entry of the item with the reason that names the missing side
  (the source when the source is missing, the target otherwise), the added list has no
  entry for the pair, the edge of the pair in the graph store is as before, no
  \<open>upsert_edge\<close> call was made for the pair, no record with these endpoints was handed
  to a vector index, and the relation index has no record with these endpoints that it
  did not have before. The item does not stop the loop: when it has a description and
  keywords and the two existence checks do not fail, the loop goes on with the remaining
  items from the same stores and the same staged and added lists, only the skipped list
  and the log having grown.
\<close>

theorem insert_custom_relations_missing_endpoint:
  assumes "item ''src_id'' = Some (PStr a)" and "item ''tgt_id'' = Some (PStr b)"
    and "(graph_nodes r (formatted a) = None) \<noteq> (graph_nodes r (formatted b) = None)"
  shows
    "(insert_custom_relations flt md5 r relations_data = (Inr res, r') \<and>
      item \<in> set relations_data \<longrightarrow>
        (formatted a, formatted b,
         if graph_nodes r (formatted a) = None then SourceEntityMissing
         else TargetEntityMissing) \<in> set (skipped res) \<and>
        (formatted a, formatted b) \<notin> set (added res) \<and>
        graph_edges r' (formatted a, formatted b) = graph_edges r (formatted a, formatted b) \<and>
        (\<forall>d. UpsertEdge (formatted a) (formatted b) d \<notin> set (new_calls r r')) \<and>
        (\<forall>st kvs k p. Upsert st kvs \<in> set (new_calls r r') \<and> (k, p) \<in> set kvs \<longrightarrow>
            \<not> (payload_src_id p = formatted a \<and> payload_tgt_id p = formatted b)) \<and>
        (\<forall>k p. relation_records r' k = Some p \<and>
               payload_src_id p = formatted a \<and> payload_tgt_id p = formatted b \<longrightarrow>
               relation_records r k = Some p)) \<and>
     (item ''description'' \<noteq> None \<and> item ''keywords'' \<noteq> None \<and>
      \<not> flt (calls r) (HasNode (formatted a)) \<and>
      \<not> flt (calls r @ [HasNode (formatted a)]) (HasNode (formatted b)) \<longrightarrow>
        insert_loop flt (item # rest) vars r =
        insert_loop flt rest
          (vars\<lparr>skipped_relations := skipped_relations vars @
              [(formatted a, formatted b,
                if graph_nodes r (formatted a) = None then SourceEntityMissing
                else TargetEntityMissing)]\<rparr>)
          (r\<lparr>calls := calls r @ [HasNode (formatted a), HasNode (formatted b)]\<rparr>))"
proof (intro conjI impI)
  let ?ns = "graph_nodes r"
  let ?fa = "formatted a" and ?fb = "formatted b"
  let ?ok = "filter (endpoints_exist ?ns) relations_data"
  have src: "item_src item = ?fa" and tgt: "item_tgt item = ?fb"
    using assms(1,2) by (simp_all add: item_src_def item_tgt_def get_or_empty_def)
  have notok: "\<not> endpoints_exist ?ns it" if "item_src it = ?fa" "item_tgt it = ?fb" for it
    using that assms(3) by (auto simp: endpoints_exist_def)
  {
    assume h: "insert_custom_relations flt md5 r relations_data = (Inr res, r') \<and>
      item \<in> set relations_data"
    then have run: "insert_custom_relations flt md5 r relations_data = (Inr res, r')"
      and mem: "item \<in> set relations_data" by simp_all
    note c = insert_custom_relations_Inr [OF run]
    from c have ad: "added res = map (\<lambda>item. (item_src item, item_tgt item)) ?ok"
      and sk: "skipped res = map (skip_entry ?ns)
                 (filter (\<lambda>item. \<not> endpoints_exist ?ns item) relations_data)"
      and ed: "graph_edges r' = write_edges ?ok (graph_edges r)"
      by simp_all
    have "skip_entry ?ns item \<in> set (skipped res)"
      unfolding sk using mem notok [OF src tgt] by simp
    then show "(?fa, ?fb, if ?ns ?fa = None then SourceEntityMissing else TargetEntityMissing)
        \<in> set (skipped res)"
      by (simp add: skip_entry_def src tgt)
    show "(?fa, ?fb) \<notin> set (added res)"
      unfolding ad using notok by auto
    have "\<forall>it \<in> set ?ok. (item_src it, item_tgt it) \<noteq> (?fa, ?fb)"
      using notok by auto
    from write_edges_other [OF this] show "graph_edges r' (?fa, ?fb) = graph_edges r (?fa, ?fb)"
      unfolding ed by simp
    have calls: "\<exists>rest. new_calls r r' = concat (map (item_calls ?ns) relations_data) @ rest \<and>
        (\<forall>c \<in> set rest. (\<exists>kvs. c = Upsert RelationshipsVdb kvs \<and>
                data_for_vdb md5 (map staged_entry ?ok) [] = Inr kvs \<and>
                (\<exists>v. relationships_vdb r = Some v \<and>
                     relationships_vdb r' = Some (vdb_store kvs v))) \<or>
            (\<exists>st. c = IndexDoneCallback st))"
    proof (cases "?ok = []")
      case True
      with c have "calls r' = calls r @ concat (map (item_calls ?ns) relations_data)" by simp
      from new_calls_append [OF this] show ?thesis by simp
    next
      case False
      with c obtain v kvs where
        v: "relationships_vdb r = Some v" "relationships_vdb r' = Some (vdb_store kvs v)" and
        d: "data_for_vdb md5 (map staged_entry ?ok) [] = Inr kvs" and
        cs: "calls r' = calls r @ (concat (map (item_calls ?ns) relations_data) @
                      [Upsert RelationshipsVdb kvs] @
                      map IndexDoneCallback (storage_insts r))"
        by auto
      from new_calls_append [OF cs] v d show ?thesis by auto
    qed
    then obtain rest where
      nc: "new_calls r r' = concat (map (item_calls ?ns) relations_data) @ rest" and
      rest: "\<forall>c \<in> set rest. (\<exists>kvs. c = Upsert RelationshipsVdb kvs \<and>
                data_for_vdb md5 (map staged_entry ?ok) [] = Inr kvs \<and>
                (\<exists>v. relationships_vdb r = Some v \<and>
                     relationships_vdb r' = Some (vdb_store kvs v))) \<or>
            (\<exists>st. c = IndexDoneCallback st)"
      by blast
    show "\<forall>d. UpsertEdge ?fa ?fb d \<notin> set (new_calls r r')"
    proof
      fix d
      show "UpsertEdge ?fa ?fb d \<notin> set (new_calls r r')"
      proof
        assume "UpsertEdge ?fa ?fb d \<in> set (new_calls r r')"
        with nc rest have "UpsertEdge ?fa ?fb d \<in> set (concat (map (item_calls ?ns) relations_data))"
          by auto
        from upsert_edge_in_item_calls [OF this] notok show False by auto
      qed
    qed
    have staged: "\<not> (payload_src_id p = ?fa \<and> payload_tgt_id p = ?fb)"
      if "data_for_vdb md5 (map staged_entry ?ok) [] = Inr kvs" "(k, p) \<in> set kvs" for kvs k p
    proof -
      from data_for_vdb_entries [OF that] obtain it where
        "it \<in> set ?ok" "payload_src_id p = item_src it" "payload_tgt_id p = item_tgt it"
        by (auto simp: staged_entry_def)
      with notok show ?thesis by auto
    qed
    show "\<forall>st kvs k p. Upsert st kvs \<in> set (new_calls r r') \<and> (k, p) \<in> set kvs \<longrightarrow>
            \<not> (payload_src_id p = ?fa \<and> payload_tgt_id p = ?fb)"
    proof (intro allI impI)
      fix st kvs k p
      assume u: "Upsert st kvs \<in> set (new_calls r r') \<and> (k, p) \<in> set kvs"
      with nc upsert_in_item_calls have "Upsert st kvs \<in> set rest" by auto
      with rest have "data_for_vdb md5 (map staged_entry ?ok) [] = Inr kvs" by auto
      from staged [OF this] u show "\<not> (payload_src_id p = ?fa \<and> payload_tgt_id p = ?fb)"
        by blast
    qed
    show "\<forall>k p. relation_records r' k = Some p \<and>
               payload_src_id p = ?fa \<and> payload_tgt_id p = ?fb \<longrightarrow>
               relation_records r k = Some p"
    proof (cases "?ok = []")
      case True
      with c have "relationships_vdb r' = relationships_vdb r" by simp
      then show ?thesis by (simp add: relation_records_def)
    next
      case False
      with c obtain v kvs where
        v: "relationships_vdb r = Some v" "relationships_vdb r' = Some (vdb_store kvs v)" and
        d: "data_for_vdb md5 (map staged_entry ?ok) [] = Inr kvs"
        by auto
      show ?thesis
      proof (intro allI impI)
        fix k p
        assume a: "relation_records r' k = Some p \<and>
               payload_src_id p = ?fa \<and> payload_tgt_id p = ?fb"
        with v have "vdb_store kvs v k = Some p" by (simp add: relation_records_def)
        from vdb_store_lookup [OF this] staged [OF d] a have "v k = Some p" by blast
        with v show "relation_records r k = Some p" by (simp add: relation_records_def)
      qed
    qed
  }
  {
    assume h: "item ''description'' \<noteq> None \<and> item ''keywords'' \<noteq> None \<and>
      \<not> flt (calls r) (HasNode ?fa) \<and> \<not> flt (calls r @ [HasNode ?fa]) (HasNode ?fb)"
    from assms(3) have g: "chunk_entity_relation_graph r \<noteq> None"
      by (auto simp: graph_nodes_def split: option.splits)
    from assms(3) have m: "?ns ?fa = None \<or> ?ns ?fb = None" by auto
    from h have "insert_item flt item vars r =
     (None,
      vars\<lparr>skipped_relations := skipped_relations vars @
         [(?fa, ?fb, if ?ns ?fa = None then SourceEntityMissing else TargetEntityMissing)]\<rparr>,
      r\<lparr>calls := calls r @ [HasNode ?fa, HasNode ?fb]\<rparr>)"
      by (intro insert_item_skip assms(1,2) m g) simp_all
    then show "insert_loop flt (item # rest) vars r =
        insert_loop flt rest
          (vars\<lparr>skipped_relations := skipped_relations vars @
              [(?fa, ?fb, if ?ns ?fa = None then SourceEntityMissing else TargetEntityMissing)]\<rparr>)
          (r\<lparr>calls := calls r @ [HasNode ?fa, HasNode ?fb]\<rparr>)"
      by simp
  }
qed

theorem insert_custom_relations_missing_endpoint_witness:
  "(formatted ''a'', formatted ''c'', TargetEntityMissing) \<in>
     set (skipped (projr (fst sample_batch))) \<and>
   (formatted ''a'', formatted ''c'') \<notin> set (added (projr (fst sample_batch))) \<and>
   (formatted ''a'', formatted ''b'') \<in> set (added (projr (fst sample_batch))) \<and>
   graph_edges (snd sample_batch) (formatted ''a'', formatted ''c'') = None \<and>
   (\<forall>d. UpsertEdge (formatted ''a'') (formatted ''c'') d \<notin>
          set (new_calls sample_rag (snd sample_batch))) \<and>
   \<not> (\<exists>k p. relation_records (snd sample_batch) k = Some p \<and>
          payload_src_id p = formatted ''a'' \<and> payload_tgt_id p = formatted ''c'') \<and>
   insert_loop no_faults [relation_item ''a'' ''c''] initial_vars sample_rag =
     (None,
      initial_vars\<lparr>skipped_relations :=
                     [(formatted ''a'', formatted ''c'', TargetEntityMissing)]\<rparr>,
      sample_rag\<lparr>calls := [HasNode (formatted ''a''), HasNode (formatted ''c'')]\<rparr>) \<and>
   (formatted ''c'', formatted ''b'', SourceEntityMissing) \<in>
     set (skipped (projr (fst sample_batch_reversed))) \<and>
   graph_edges (snd sample_batch_reversed) (formatted ''c'', formatted ''b'') = None"
proof -
  let ?ac = "relation_item ''a'' ''c''" and ?cb = "relation_item ''c'' ''b''"
  have run: "insert_custom_relations no_faults sample_md5 sample_rag
       [relation_item ''a'' ''b'', ?ac] = (Inr (projr (fst sample_batch)), snd sample_batch)"
    using sample_batch_run by (simp add: sample_batch_def prod_eq_iff)
  have run': "insert_custom_relations no_faults sample_md5 sample_rag [?cb] =
       (Inr (projr (fst sample_batch_reversed)), snd sample_batch_reversed)"
    using sample_batch_reversed_run by (simp add: sample_batch_reversed_def prod_eq_iff)
  have ac: "?ac ''src_id'' = Some (PStr ''a'')" "?ac ''tgt_id'' = Some (PStr ''c'')"
      "?ac ''description'' \<noteq> None" "?ac ''keywords'' \<noteq> None"
    and cb: "?cb ''src_id'' = Some (PStr ''c'')" "?cb ''tgt_id'' = Some (PStr ''b'')"
    by (simp_all add: relation_item_def)
  have n: "graph_nodes sample_rag (formatted ''a'') \<noteq> None"
      "graph_nodes sample_rag (formatted ''b'') \<noteq> None"
      "graph_nodes sample_rag (formatted ''c'') = None"
    by (simp_all add: graph_nodes_def sample_defs)
  have e: "graph_edges sample_rag (formatted ''a'', formatted ''c'') = None"
      "graph_edges sample_rag (formatted ''c'', formatted ''b'') = None"
    by (simp_all add: graph_edges_def sample_defs)
  have v: "relation_records sample_rag = Map.empty"
    by (simp add: relation_records_def sample_rag_def)
  have f: "\<And>tr c. \<not> no_faults tr c" by (simp add: no_faults_def)
  have c: "calls sample_rag = []" by (simp add: sample_rag_def)
  have m1: "(graph_nodes sample_rag (formatted ''a'') = None) \<noteq>
            (graph_nodes sample_rag (formatted ''c'') = None)"
    and m2: "(graph_nodes sample_rag (formatted ''c'') = None) \<noteq>
             (graph_nodes sample_rag (formatted ''b'') = None)"
    using n by simp_all
  note t1 = insert_custom_relations_missing_endpoint [OF ac(1,2) m1,
      where flt = no_faults and ?md5.0 = sample_md5 and
        relations_data = "[relation_item ''a'' ''b'', ?ac]" and
        res = "projr (fst sample_batch)" and r' = "snd sample_batch" and
        rest = "[]" and vars = initial_vars]
  note t2 = insert_custom_relations_missing_endpoint [OF cb(1,2) m2,
      where flt = no_faults and ?md5.0 = sample_md5 and relations_data = "[?cb]" and
        res = "projr (fst sample_batch_reversed)" and r' = "snd sample_batch_reversed"]
  from t1 run have b1:
    "(formatted ''a'', formatted ''c'', TargetEntityMissing) \<in>
       set (skipped (projr (fst sample_batch)))"
    "(formatted ''a'', formatted ''c'') \<notin> set (added (projr (fst sample_batch)))"
    "graph_edges (snd sample_batch) (formatted ''a'', formatted ''c'') = None"
    "\<forall>d. UpsertEdge (formatted ''a'') (formatted ''c'') d \<notin>
          set (new_calls sample_rag (snd sample_batch))"
    "\<not> (\<exists>k p. relation_records (snd sample_batch) k = Some p \<and>
          payload_src_id p = formatted ''a'' \<and> payload_tgt_id p = formatted ''c'')"
    using n e v by auto
  from t1 ac f have a1:
    "insert_loop no_faults [?ac] initial_vars sample_rag =
     (None,
      initial_vars\<lparr>skipped_relations :=
                     [(formatted ''a'', formatted ''c'', TargetEntityMissing)]\<rparr>,
      sample_rag\<lparr>calls := [HasNode (formatted ''a''), HasNode (formatted ''c'')]\<rparr>)"
    using n c by (simp add: initial_vars_def)
  from t2 run' have b2:
    "(formatted ''c'', formatted ''b'', SourceEntityMissing) \<in>
       set (skipped (projr (fst sample_batch_reversed)))"
    "graph_edges (snd sample_batch_reversed) (formatted ''c'', formatted ''b'') = None"
    using n e by auto
  have a: "(formatted ''a'', formatted ''b'') \<in> set (added (projr (fst sample_batch)))"
    by (simp add: sample_batch_run)
  from b1 a1 b2 a show ?thesis by blast
qed

subsection \<open>A store fault after the graph write of \<open>update_entity\<close>\<close>

text \<open>
  C2. The claim asks that \<open>update_entity\<close> finalizes the stores already written when the
  upsert of the entity index raises after the node was written. On the sample, with an
  entity index that rejects the upsert: the exception reaches the caller, the node
  \<open>PARIS\<close> has been written with the merged record, and no \<open>index_done_callback\<close> was
  called on any store, because \<open>update_storage\<close> is set only after the upsert of the
  index. The batch insertion sets the flag right after the graph write and, under the
  same fault, does finalize the three stores before the exception reaches the caller.
\<close>

theorem update_entity_fault_not_finalized:
  "fst paris_vdb_fault =
     Inl (StoreFault (Upsert EntitiesVdb
            [(''ent-PARIS'', EntityPayload ''PARIScapital of France'' ''PARIS'')])) \<and>
   graph_nodes (snd paris_vdb_fault) ''PARIS'' =
     Some [''description'' \<mapsto> PStr ''capital of France'', ''entity_type'' \<mapsto> PStr ''CITY''] \<and>
   map store_of (filter is_write (new_calls sample_rag (snd paris_vdb_fault))) =
     [ChunkEntityRelationGraph, EntitiesVdb] \<and>
   filter is_finalize (new_calls sample_rag (snd paris_vdb_fault)) = [] \<and>
   fst batch_vdb_fault =
     Inl (StoreFault (Upsert RelationshipsVdb
            [(''rel-'' @ formatted ''a'' @ formatted ''b'',
              RelationPayload (formatted ''a'') (formatted ''b'')
                (''kw'' @ formatted ''a'' @ formatted ''b'' @ ''linked''))])) \<and>
   filter is_finalize (new_calls sample_rag (snd batch_vdb_fault)) =
     [IndexDoneCallback EntitiesVdb, IndexDoneCallback RelationshipsVdb,
      IndexDoneCallback ChunkEntityRelationGraph]"
  by (simp add: paris_vdb_fault_def batch_vdb_fault_def update_entity_def insert_eval
        vdb_upsert_fails_def new_calls_def graph_nodes_def)

subsection \<open>The stores that are finalized\<close>

lemma no_finalize_in_callbacks [simp]:
  "filter is_finalize (map IndexDoneCallback ss) = map IndexDoneCallback ss"
  "filter is_write (map IndexDoneCallback ss) = []"
  by (induction ss) simp_all

lemma no_finalize_in_item_calls [simp]:
  "filter is_finalize (concat (map (item_calls ns) items)) = []"
  by (induction items) (simp_all add: item_calls_def)

lemma writes_in_item_calls:
  "filter is_write (concat (map (item_calls ns) items)) =
     map (\<lambda>item. UpsertEdge (item_src item) (item_tgt item) (item_edge item))
       (filter (endpoints_exist ns) items)"
  by (induction items) (simp_all add: item_calls_def)

lemma update_entity_calls:
  assumes "update_entity flt md5 r n d = (Inr res, r')"
  shows "(status res = Failed \<and> new_calls r r' = [HasNode n]) \<or>
         (\<exists>upd. status res = Success \<and> updated_data res = Some upd \<and>
            new_calls r r' =
              [HasNode n, GetNode n, UpsertNode n upd, Upsert EntitiesVdb [entity_record md5 n upd]]
              @ map IndexDoneCallback (storage_insts r))"
proof (cases "status res")
  case Success
  from update_entity_success [OF assms Success] show ?thesis
    by (auto simp: new_calls_def)
next
  case Failed
  from update_entity_failed [OF assms Failed] show ?thesis
    by (auto simp: new_calls_def)
qed

lemma update_relation_calls:
  assumes "update_relation flt md5 r s t d = (Inr res, r')"
  shows "(status res = Failed \<and>
          (new_calls r r' = [HasNode (formatted s), HasNode (formatted t)] \<or>
           new_calls r r' = [HasNode (formatted s), HasNode (formatted t),
                             HasEdge (formatted s) (formatted t)])) \<or>
         (\<exists>upd. status res = Success \<and> updated_data res = Some upd \<and>
            new_calls r r' =
              [HasNode (formatted s), HasNode (formatted t),
               HasEdge (formatted s) (formatted t), GetEdge (formatted s) (formatted t),
               UpsertEdge (formatted s) (formatted t) upd,
               Upsert RelationshipsVdb [relation_record md5 (formatted s) (formatted t) upd]]
              @ map IndexDoneCallback (storage_insts r))"
  using update_relation_Inr [OF assms]
  by (auto simp: new_calls_def split: if_splits option.splits)

lemma insert_custom_relations_calls:
  assumes "insert_custom_relations flt md5 r items = (Inr res, r')"
  shows "(filter (endpoints_exist (graph_nodes r)) items = [] \<and>
          new_calls r r' = concat (map (item_calls (graph_nodes r)) items)) \<or>
         (\<exists>kvs. filter (endpoints_exist (graph_nodes r)) items \<noteq> [] \<and>
            data_for_vdb md5
              (map staged_entry (filter (endpoints_exist (graph_nodes r)) items)) [] = Inr kvs \<and>
            new_calls r r' = concat (map (item_calls (graph_nodes r)) items) @
               [Upsert RelationshipsVdb kvs] @ map IndexDoneCallback (storage_insts r))"
  using insert_custom_relations_Inr [OF assms]
  by (auto simp: new_calls_def split: if_splits)

lemma sample_relation_update_run:
  "sample_relation_update =
     (Inr (projr (fst sample_relation_update)), snd sample_relation_update)"
  by (simp add: sample_relation_update_def update_relation_def store_defs sample_defs Let_def
        get_or_empty_def merge_edge_data_def compute_mdhash_id_def prod_eq_iff)

lemma sample_writes:
  "filter is_write (new_calls sample_rag (snd paris_first)) \<noteq> []"
  "filter is_write (new_calls sample_rag (snd sample_relation_update)) \<noteq> []"
  "filter is_write (new_calls sample_rag (snd sample_batch)) \<noteq> []"
proof -
  show "filter is_write (new_calls sample_rag (snd paris_first)) \<noteq> []"
    by (simp add: paris_first_def update_entity_eval new_calls_def)
  show "filter is_write (new_calls sample_rag (snd sample_relation_update)) \<noteq> []"
    by (simp add: sample_relation_update_def update_relation_def store_defs sample_defs Let_def
        get_or_empty_def merge_edge_data_def compute_mdhash_id_def new_calls_def)
  show "filter is_write (new_calls sample_rag (snd sample_batch)) \<noteq> []"
    by (simp add: sample_batch_def insert_eval new_calls_def)
qed

text \<open>
  C3, as amended. \<open>_insert_done\<close> does not look at what was written: it calls
  \<open>index_done_callback\<close> on every store of the \<open>rag\<close> object that is not \<open>None\<close>.
  When one of the three operations returns normally after at least one write, its last
  calls are these callbacks, once for each such store, in the order entity index,
  relation index, graph store, and no callback comes earlier. The stores it wrote to
  (the graph store and the entity index for \<open>update_entity\<close>; the graph store and the
  relation index for \<open>update_relation\<close> and for the batch insertion) are among the
  finalized ones, and the batch insertion finalizes the entity index whenever the
  \<open>rag\<close> object has one, although it never writes to it.
\<close>

theorem finalize_every_attached_store:
  "(update_entity flt md5 r n d = (Inr ures, r1) \<and> filter is_write (new_calls r r1) \<noteq> [] \<longrightarrow>
      (\<exists>cs. new_calls r r1 = cs @ map IndexDoneCallback (storage_insts r) \<and>
            filter is_finalize cs = []) \<and>
      written_stores (new_calls r r1) = {ChunkEntityRelationGraph, EntitiesVdb} \<and>
      finalized_stores (new_calls r r1) = set (storage_insts r) \<and>
      written_stores (new_calls r r1) \<subseteq> finalized_stores (new_calls r r1)) \<and>
   (update_relation flt md5 r s t d = (Inr rres, r2) \<and> filter is_write (new_calls r r2) \<noteq> [] \<longrightarrow>
      (\<exists>cs. new_calls r r2 = cs @ map IndexDoneCallback (storage_insts r) \<and>
            filter is_finalize cs = []) \<and>
      written_stores (new_calls r r2) = {ChunkEntityRelationGraph, RelationshipsVdb} \<and>
      finalized_stores (new_calls r r2) = set (storage_insts r) \<and>
      written_stores (new_calls r r2) \<subseteq> finalized_stores (new_calls r r2)) \<and>
   (insert_custom_relations flt md5 r items = (Inr bres, r3) \<and>
    filter is_write (new_calls r r3) \<noteq> [] \<longrightarrow>
      (\<exists>cs. new_calls r r3 = cs @ map IndexDoneCallback (storage_insts r) \<and>
            filter is_finalize cs = []) \<and>
      written_stores (new_calls r r3) = {ChunkEntityRelationGraph, RelationshipsVdb} \<and>
      finalized_stores (new_calls r r3) = set (storage_insts r) \<and>
      written_stores (new_calls r r3) \<subseteq> finalized_stores (new_calls r r3) \<and>
      (EntitiesVdb \<in> finalized_stores (new_calls r r3) \<longleftrightarrow> entities_vdb r \<noteq> None))"
proof (intro conjI impI)
  have fin: "store_of ` IndexDoneCallback ` set ss = set ss" for ss
    by force
  have att: "EntitiesVdb \<in> set (storage_insts r) \<longleftrightarrow> entities_vdb r \<noteq> None"
    by (auto simp: storage_insts_def)
  {
    assume h: "update_entity flt md5 r n d = (Inr ures, r1) \<and>
               filter is_write (new_calls r r1) \<noteq> []"
    with update_entity_calls [of flt md5 r n d ures r1] obtain upd where
      c: "new_calls r r1 =
              [HasNode n, GetNode n, UpsertNode n upd, Upsert EntitiesVdb [entity_record md5 n upd]]
              @ map IndexDoneCallback (storage_insts r)"
      and st: "status ures = Success"
      by auto
    from update_entity_Inr [of flt md5 r n d ures r1] h st
    have g: "chunk_entity_relation_graph r \<noteq> None" "entities_vdb r \<noteq> None"
      by (auto split: option.splits)
    show "\<exists>cs. new_calls r r1 = cs @ map IndexDoneCallback (storage_insts r) \<and>
            filter is_finalize cs = []"
      using c by auto
    show w: "written_stores (new_calls r r1) = {ChunkEntityRelationGraph, EntitiesVdb}"
      unfolding c by (auto simp: written_stores_def)
    show f: "finalized_stores (new_calls r r1) = set (storage_insts r)"
      unfolding c by (simp add: finalized_stores_def fin)
    show "written_stores (new_calls r r1) \<subseteq> finalized_stores (new_calls r r1)"
      unfolding w f using g by (auto simp: storage_insts_def)
  }
  {
    assume h: "update_relation flt md5 r s t d = (Inr rres, r2) \<and>
               filter is_write (new_calls r r2) \<noteq> []"
    with update_relation_calls [of flt md5 r s t d rres r2] obtain upd where
      c: "new_calls r r2 =
              [HasNode (formatted s), HasNode (formatted t),
               HasEdge (formatted s) (formatted t), GetEdge (formatted s) (formatted t),
               UpsertEdge (formatted s) (formatted t) upd,
               Upsert RelationshipsVdb [relation_record md5 (formatted s) (formatted t) upd]]
              @ map IndexDoneCallback (storage_insts r)"
      and st: "status rres = Success"
      by auto
    from update_relation_Inr [of flt md5 r s t d rres r2] h st
    have g: "chunk_entity_relation_graph r \<noteq> None" "relationships_vdb r \<noteq> None"
      by (auto split: if_splits option.splits)
    show "\<exists>cs. new_calls r r2 = cs @ map IndexDoneCallback (storage_insts r) \<and>
            filter is_finalize cs = []"
      using c by auto
    show w: "written_stores (new_calls r r2) = {ChunkEntityRelationGraph, RelationshipsVdb}"
      unfolding c by (auto simp: written_stores_def)
    show f: "finalized_stores (new_calls r r2) = set (storage_insts r)"
      unfolding c by (simp add: finalized_stores_def fin)
    show "written_stores (new_calls r r2) \<subseteq> finalized_stores (new_calls r r2)"
      unfolding w f using g by (auto simp: storage_insts_def)
  }
  {
    assume h: "insert_custom_relations flt md5 r items = (Inr bres, r3) \<and>
               filter is_write (new_calls r r3) \<noteq> []"
    let ?ok = "filter (endpoints_exist (graph_nodes r)) items"
    from h insert_custom_relations_calls [of flt md5 r items bres r3] obtain kvs where
      ok: "?ok \<noteq> []" and
      c: "new_calls r r3 = concat (map (item_calls (graph_nodes r)) items) @
               [Upsert RelationshipsVdb kvs] @ map IndexDoneCallback (storage_insts r)"
      by (auto simp: writes_in_item_calls)
    from insert_custom_relations_Inr [of flt md5 r items bres r3] h ok
    have g: "chunk_entity_relation_graph r \<noteq> None" "relationships_vdb r \<noteq> None"
      by auto
    show "\<exists>cs. new_calls r r3 = cs @ map IndexDoneCallback (storage_insts r) \<and>
            filter is_finalize cs = []"
      using c by auto
    from ok obtain item where "item \<in> set ?ok" by (cases ?ok) auto
    then have "store_of ` set (filter is_write (concat (map (item_calls (graph_nodes r)) items)))
                 = {ChunkEntityRelationGraph}"
      unfolding writes_in_item_calls by (force simp: image_iff)
    then show w: "written_stores (new_calls r r3) = {ChunkEntityRelationGraph, RelationshipsVdb}"
      unfolding c by (auto simp: written_stores_def image_Un)
    show f: "finalized_stores (new_calls r r3) = set (storage_insts r)"
      unfolding c by (simp add: finalized_stores_def fin)
    show "written_stores (new_calls r r3) \<subseteq> finalized_stores (new_calls r r3)"
      unfolding w f using g by (auto simp: storage_insts_def)
    show "EntitiesVdb \<in> finalized_stores (new_calls r r3) \<longleftrightarrow> entities_vdb r \<noteq> None"
      unfolding f by (rule att)
  }
qed

theorem finalize_every_attached_store_witness:
  "filter is_write (new_calls sample_rag (snd paris_first)) \<noteq> [] \<and>
   filter is_finalize (new_calls sample_rag (snd paris_first)) =
     [IndexDoneCallback EntitiesVdb, IndexDoneCallback RelationshipsVdb,
      IndexDoneCallback ChunkEntityRelationGraph] \<and>
   written_stores (new_calls sample_rag (snd paris_first)) =
     {ChunkEntityRelationGraph, EntitiesVdb} \<and>
   filter is_write (new_calls sample_rag (snd sample_relation_update)) \<noteq> [] \<and>
   filter is_finalize (new_calls sample_rag (snd sample_relation_update)) =
     [IndexDoneCallback EntitiesVdb, IndexDoneCallback RelationshipsVdb,
      IndexDoneCallback ChunkEntityRelationGraph] \<and>
   written_stores (new_calls sample_rag (snd sample_relation_update)) =
     {ChunkEntityRelationGraph, RelationshipsVdb} \<and>
   filter is_write (new_calls sample_rag (snd sample_batch)) \<noteq> [] \<and>
   filter is_finalize (new_calls sample_rag (snd sample_batch)) =
     [IndexDoneCallback EntitiesVdb, IndexDoneCallback RelationshipsVdb,
      IndexDoneCallback ChunkEntityRelationGraph] \<and>
   written_stores (new_calls sample_rag (snd sample_batch)) =
     {ChunkEntityRelationGraph, RelationshipsVdb} \<and>
   EntitiesVdb \<in> finalized_stores (new_calls sample_rag (snd sample_batch))"
proof -
  have r1: "update_entity no_faults sample_md5 sample_rag ''PARIS''
              [''entity_type'' \<mapsto> PStr ''CITY''] =
            (Inr (projr (fst paris_first)), snd paris_first)"
    using paris_first_run by (simp add: paris_first_def)
  have r2: "update_relation no_faults sample_md5 sample_rag ''a'' ''b''
              [''description'' \<mapsto> PStr ''second''] =
            (Inr (projr (fst sample_relation_update)), snd sample_relation_update)"
    using sample_relation_update_run by (simp add: sample_relation_update_def)
  have r3: "insert_custom_relations no_faults sample_md5 sample_rag
              [relation_item ''a'' ''b'', relation_item ''a'' ''c''] =
            (Inr (projr (fst sample_batch)), snd sample_batch)"
    using sample_batch_run by (simp add: sample_batch_def prod_eq_iff)
  have si: "map IndexDoneCallback (storage_insts sample_rag) =
     [IndexDoneCallback EntitiesVdb, IndexDoneCallback RelationshipsVdb,
      IndexDoneCallback ChunkEntityRelationGraph]"
    and ev: "entities_vdb sample_rag \<noteq> None"
    by (simp_all add: storage_insts_def sample_rag_def)
  note t1 = finalize_every_attached_store [THEN conjunct1, rule_format, OF conjI,
      OF r1 sample_writes(1)]
  note t2 = finalize_every_attached_store [THEN conjunct2, THEN conjunct1, rule_format,
      OF conjI, OF r2 sample_writes(2)]
  note t3 = finalize_every_attached_store [THEN conjunct2, THEN conjunct2, rule_format,
      OF conjI, OF r3 sample_writes(3)]
  from t1 obtain cs1 where
    a: "new_calls sample_rag (snd paris_first) =
          cs1 @ map IndexDoneCallback (storage_insts sample_rag)"
       "filter is_finalize cs1 = []"
    by (elim conjE exE)
  from t1 have a3: "written_stores (new_calls sample_rag (snd paris_first)) =
          {ChunkEntityRelationGraph, EntitiesVdb}"
    by (elim conjE)
  from t2 obtain cs2 where
    b: "new_calls sample_rag (snd sample_relation_update) =
          cs2 @ map IndexDoneCallback (storage_insts sample_rag)"
       "filter is_finalize cs2 = []"
    by (elim conjE exE)
  from t2 have b3: "written_stores (new_calls sample_rag (snd sample_relation_update)) =
          {ChunkEntityRelationGraph, RelationshipsVdb}"
    by (elim conjE)
  from t3 obtain cs3 where
    c: "new_calls sample_rag (snd sample_batch) =
          cs3 @ map IndexDoneCallback (storage_insts sample_rag)"
       "filter is_finalize cs3 = []"
    by (elim conjE exE)
  note c3 = t3 [THEN conjunct2, THEN conjunct1]
  note c4 = t3 [THEN conjunct2, THEN conjunct2, THEN conjunct2, THEN conjunct2]
  have f1: "filter is_finalize (new_calls sample_rag (snd paris_first)) =
              map IndexDoneCallback (storage_insts sample_rag)"
    unfolding a(1) using a(2) by simp
  have f2: "filter is_finalize (new_calls sample_rag (snd sample_relation_update)) =
              map IndexDoneCallback (storage_insts sample_rag)"
    unfolding b(1) using b(2) by simp
  have f3: "filter is_finalize (new_calls sample_rag (snd sample_batch)) =
              map IndexDoneCallback (storage_insts sample_rag)"
    unfolding c(1) using c(2) by simp
  from c4 ev have e: "EntitiesVdb \<in> finalized_stores (new_calls sample_rag (snd sample_batch))"
    by simp
  show ?thesis
    unfolding f1 f2 f3 si a3 b3 c3 using sample_writes e by simp
qed

text \<open>
  The claim as stated fails on the batch of the scenario: it returns normally, writes to
  the graph store and to the relation index only, and finalizes the entity index too.
\<close>

theorem finalize_only_written_counterexample:
  "fst sample_batch =
     Inr \<lparr>added = [(formatted ''a'', formatted ''b'')],
          skipped = [(formatted ''a'', formatted ''c'', TargetEntityMissing)],
          total_added = 1, total_skipped = 1\<rparr> \<and>
   map store_of (filter is_write (new_calls sample_rag (snd sample_batch))) =
     [ChunkEntityRelationGraph, RelationshipsVdb] \<and>
   filter is_finalize (new_calls sample_rag (snd sample_batch)) =
     [IndexDoneCallback EntitiesVdb, IndexDoneCallback RelationshipsVdb,
      IndexDoneCallback ChunkEntityRelationGraph] \<and>
   EntitiesVdb \<notin> written_stores (new_calls sample_rag (snd sample_batch)) \<and>
   EntitiesVdb \<in> finalized_stores (new_calls sample_rag (snd sample_batch))"
  by (simp add: sample_batch_def insert_eval new_calls_def written_stores_def
        finalized_stores_def)

subsection \<open>The keys of the vector records\<close>

lemma upsert_in_callbacks: "Upsert st kvs \<notin> set (map IndexDoneCallback ss)"
  by auto

lemma paris_described_run:
  "paris_described = (Inr (projr (fst paris_described)), snd paris_described) \<and>
   status (projr (fst paris_described)) = Success \<and>
   updated_data (projr (fst paris_described)) = Some [''description'' \<mapsto> PStr ''city of light'']"
  by (simp add: paris_described_def update_entity_eval prod_eq_iff)

lemma sample_batch_upsert:
  "Upsert RelationshipsVdb
     [(''rel-'' @ formatted ''a'' @ formatted ''b'',
       RelationPayload (formatted ''a'') (formatted ''b'')
         (''kw'' @ formatted ''a'' @ formatted ''b'' @ ''linked''))]
   \<in> set (new_calls sample_rag (snd sample_batch))"
  by (simp add: sample_batch_def insert_eval new_calls_def)

lemma sample_relation_update_status:
  "status (projr (fst sample_relation_update)) = Success"
  by (simp add: sample_relation_update_def update_relation_def store_defs sample_defs Let_def
        get_or_empty_def merge_edge_data_def compute_mdhash_id_def)

text \<open>
  C1, as amended. The key of a vector record is the prefixed digest of the name or of the
  pair of names, not of the content. A successful \<open>update_entity\<close> makes one upsert
  call to a vector index: to the entity index, with one record under the key
  \<open>compute_mdhash_id(entity_name, prefix="ent-")\<close> of the name as supplied; the merged
  description is part of the content of the record only. A successful
  \<open>update_relation\<close> makes one upsert call: to the relation index, with one record
  under the key \<open>compute_mdhash_id(src + tgt, prefix="rel-")\<close> of the two normalized
  names; keywords and description are part of the content only. Every record that a
  normally returning batch insertion hands to a vector index goes to the relation index
  under the key \<open>compute_mdhash_id(src_id + tgt_id, prefix="rel-")\<close> of its own two
  normalized names. So the key of a record does not change when the description does.
\<close>

theorem vector_index_keys:
  "(update_entity flt md5 r n d = (Inr ures, r1) \<and> status ures = Success \<longrightarrow>
      (\<exists>merged. updated_data ures = Some merged \<and>
         filter is_vdb_upsert (new_calls r r1) =
           [Upsert EntitiesVdb
              [(compute_mdhash_id md5 n ''ent-'',
                EntityPayload (n @ py_str (get_or_empty merged ''description'')) n)]])) \<and>
   (update_relation flt md5 r s t d = (Inr rres, r2) \<and> status rres = Success \<longrightarrow>
      (\<exists>merged. updated_data rres = Some merged \<and>
         filter is_vdb_upsert (new_calls r r2) =
           [Upsert RelationshipsVdb
              [(compute_mdhash_id md5 (formatted s @ formatted t) ''rel-'',
                RelationPayload (formatted s) (formatted t)
                  (py_str (get_or_empty merged ''keywords'') @ formatted s @ formatted t @
                   py_str (get_or_empty merged ''description'')))]])) \<and>
   (insert_custom_relations flt md5 r items = (Inr bres, r3) \<longrightarrow>
      (\<forall>st kvs k p. Upsert st kvs \<in> set (new_calls r r3) \<and> (k, p) \<in> set kvs \<longrightarrow>
          st = RelationshipsVdb \<and>
          k = compute_mdhash_id md5 (payload_src_id p @ payload_tgt_id p) ''rel-'' \<and>
          (\<exists>item \<in> set items.
             payload_src_id p = item_src item \<and> payload_tgt_id p = item_tgt item)))"
proof (intro conjI impI allI)
  {
    assume h: "update_entity flt md5 r n d = (Inr ures, r1) \<and> status ures = Success"
    with update_entity_calls [of flt md5 r n d ures r1] obtain upd where
      "updated_data ures = Some upd"
      "new_calls r r1 =
              [HasNode n, GetNode n, UpsertNode n upd, Upsert EntitiesVdb [entity_record md5 n upd]]
              @ map IndexDoneCallback (storage_insts r)"
      by auto
    then show "\<exists>merged. updated_data ures = Some merged \<and>
         filter is_vdb_upsert (new_calls r r1) =
           [Upsert EntitiesVdb
              [(compute_mdhash_id md5 n ''ent-'',
                EntityPayload (n @ py_str (get_or_empty merged ''description'')) n)]]"
      by (simp add: entity_record_def no_upsert_in_callbacks)
  }
  {
    assume h: "update_relation flt md5 r s t d = (Inr rres, r2) \<and> status rres = Success"
    with update_relation_calls [of flt md5 r s t d rres r2] obtain upd where
      "updated_data rres = Some upd"
      "new_calls r r2 =
              [HasNode (formatted s), HasNode (formatted t),
               HasEdge (formatted s) (formatted t), GetEdge (formatted s) (formatted t),
               UpsertEdge (formatted s) (formatted t) upd,
               Upsert RelationshipsVdb [relation_record md5 (formatted s) (formatted t) upd]]
              @ map IndexDoneCallback (storage_insts r)"
      by auto
    then show "\<exists>merged. updated_data rres = Some merged \<and>
         filter is_vdb_upsert (new_calls r r2) =
           [Upsert RelationshipsVdb
              [(compute_mdhash_id md5 (formatted s @ formatted t) ''rel-'',
                RelationPayload (formatted s) (formatted t)
                  (py_str (get_or_empty merged ''keywords'') @ formatted s @ formatted t @
                   py_str (get_or_empty merged ''description'')))]]"
      by (simp add: relation_record_def no_upsert_in_callbacks)
  }
  {
    fix st kvs k p
    assume run: "insert_custom_relations flt md5 r items = (Inr bres, r3)"
      and u: "Upsert st kvs \<in> set (new_calls r r3) \<and> (k, p) \<in> set kvs"
    let ?ok = "filter (endpoints_exist (graph_nodes r)) items"
    from insert_custom_relations_calls [OF run] u upsert_in_item_calls upsert_in_callbacks
    have st: "st = RelationshipsVdb"
      and d: "data_for_vdb md5 (map staged_entry ?ok) [] = Inr kvs"
      by auto
    from u have kp: "(k, p) \<in> set kvs" by simp
    from data_for_vdb_entries [OF d kp] obtain item where
      i: "item \<in> set ?ok" "k = rel_key md5 (staged_entry item)"
         "payload_src_id p = item_src item" "payload_tgt_id p = item_tgt item"
      by (auto simp: staged_entry_def)
    from i(2-4) have k: "k = compute_mdhash_id md5 (payload_src_id p @ payload_tgt_id p) ''rel-''"
      by (simp add: rel_key_def staged_entry_def)
    show "st = RelationshipsVdb" by (rule st)
    show "k = compute_mdhash_id md5 (payload_src_id p @ payload_tgt_id p) ''rel-''" by (rule k)
    from i show "\<exists>item \<in> set items.
             payload_src_id p = item_src item \<and> payload_tgt_id p = item_tgt item"
      by auto
  }
qed

theorem vector_index_keys_witness:
  "status (projr (fst paris_described)) = Success \<and>
   filter is_vdb_upsert (new_calls sample_rag (snd paris_described)) =
     [Upsert EntitiesVdb
        [(compute_mdhash_id sample_md5 ''PARIS'' ''ent-'',
          EntityPayload (''PARIS'' @ ''city of light'') ''PARIS'')]] \<and>
   status (projr (fst sample_relation_update)) = Success \<and>
   (\<exists>merged. updated_data (projr (fst sample_relation_update)) = Some merged \<and>
      filter is_vdb_upsert (new_calls sample_rag (snd sample_relation_update)) =
        [Upsert RelationshipsVdb
           [(compute_mdhash_id sample_md5 (formatted ''a'' @ formatted ''b'') ''rel-'',
             RelationPayload (formatted ''a'') (formatted ''b'')
               (py_str (get_or_empty merged ''keywords'') @ formatted ''a'' @ formatted ''b'' @
                py_str (get_or_empty merged ''description'')))]]) \<and>
   Upsert RelationshipsVdb
     [(''rel-'' @ formatted ''a'' @ formatted ''b'',
       RelationPayload (formatted ''a'') (formatted ''b'')
         (''kw'' @ formatted ''a'' @ formatted ''b'' @ ''linked''))]
     \<in> set (new_calls sample_rag (snd sample_batch)) \<and>
   ''rel-'' @ formatted ''a'' @ formatted ''b'' =
     compute_mdhash_id sample_md5 (formatted ''a'' @ formatted ''b'') ''rel-''"
proof -
  have r1: "update_entity no_faults sample_md5 sample_rag ''PARIS''
              [''description'' \<mapsto> PStr ''city of light''] =
            (Inr (projr (fst paris_described)), snd paris_described)"
    using paris_described_run by (simp add: paris_described_def)
  have s1: "status (projr (fst paris_described)) = Success"
    and u1: "updated_data (projr (fst paris_described)) =
               Some [''description'' \<mapsto> PStr ''city of light'']"
    using paris_described_run by simp_all
  have r2: "update_relation no_faults sample_md5 sample_rag ''a'' ''b''
              [''description'' \<mapsto> PStr ''second''] =
            (Inr (projr (fst sample_relation_update)), snd sample_relation_update)"
    using sample_relation_update_run by (simp add: sample_relation_update_def)
  note s2 = sample_relation_update_status
  have r3: "insert_custom_relations no_faults sample_md5 sample_rag
              [relation_item ''a'' ''b'', relation_item ''a'' ''c''] =
            (Inr (projr (fst sample_batch)), snd sample_batch)"
    using sample_batch_run by (simp add: sample_batch_def prod_eq_iff)
  note t1 = vector_index_keys [THEN conjunct1, rule_format, OF conjI, OF r1 s1]
  note t2 = vector_index_keys [THEN conjunct2, THEN conjunct1, rule_format, OF conjI, OF r2 s2]
  note t3 = vector_index_keys [THEN conjunct2, THEN conjunct2, rule_format, OF r3,
      OF conjI, OF sample_batch_upsert, THEN conjunct2, THEN conjunct1]
  from t1 u1 have a: "filter is_vdb_upsert (new_calls sample_rag (snd paris_described)) =
     [Upsert EntitiesVdb
        [(compute_mdhash_id sample_md5 ''PARIS'' ''ent-'',
          EntityPayload (''PARIS'' @ ''city of light'') ''PARIS'')]]"
    by (auto simp: get_or_empty_def)
  have c: "''rel-'' @ formatted ''a'' @ formatted ''b'' =
     compute_mdhash_id sample_md5 (formatted ''a'' @ formatted ''b'') ''rel-''"
    using t3 by simp
  from s1 a s2 t2 sample_batch_upsert c show ?thesis by (intro conjI)
qed

text \<open>
  The claim as stated fails on the sample, where the digest is the identity: the entity
  \<open>PARIS\<close> is updated with a new description twice and both records are upserted under
  the key \<open>ent-PARIS\<close>, which is not the prefixed digest of name and description; the
  relation from \<open>A\<close> to \<open>B\<close> is upserted under the prefixed digest of the two names,
  which is not that of keywords, names and description.
\<close>

theorem vector_key_counterexample:
  "status (projr (fst paris_described)) = Success \<and>
   filter is_vdb_upsert (new_calls sample_rag (snd paris_described)) =
     [Upsert EntitiesVdb [(''ent-PARIS'', EntityPayload ''PARIScity of light'' ''PARIS'')]] \<and>
   ''ent-PARIS'' \<noteq> compute_mdhash_id sample_md5 (''PARIS'' @ ''city of light'') ''ent-'' \<and>
   status (projr (fst paris_described_again)) = Success \<and>
   filter is_vdb_upsert (new_calls (snd paris_described) (snd paris_described_again)) =
     [Upsert EntitiesVdb [(''ent-PARIS'', EntityPayload ''PARISon the Seine'' ''PARIS'')]] \<and>
   status (projr (fst sample_relation_update)) = Success \<and>
   filter is_vdb_upsert (new_calls sample_rag (snd sample_relation_update)) =
     [Upsert RelationshipsVdb
        [(''rel-'' @ formatted ''a'' @ formatted ''b'',
          RelationPayload (formatted ''a'') (formatted ''b'')
            (''kw'' @ formatted ''a'' @ formatted ''b'' @ ''second''))]] \<and>
   ''rel-'' @ formatted ''a'' @ formatted ''b'' \<noteq>
     compute_mdhash_id sample_md5 (''kw'' @ formatted ''a'' @ formatted ''b'' @ ''second'') ''rel-''"
  by (simp add: paris_described_def paris_described_again_def update_entity_eval
        sample_relation_update_def update_relation_def merge_edge_data_def new_calls_def)

subsection \<open>The names handed to the graph store\<close>

lemma call_names_callbacks [simp]: "concat (map call_names (map IndexDoneCallback ss)) = []"
  by (induction ss) simp_all

lemma call_names_item_calls:
  "set (concat (map call_names (concat (map (item_calls ns) items)))) =
     item_src ` set items \<union> item_tgt ` set items"
  by (induction items) (auto simp: item_calls_def)

text \<open>
  On a normal return, \<open>update_entity\<close> has handed the entity name to the graph store as it
  was supplied, while \<open>update_relation\<close> and the batch insertion have handed over the
  normalized names only.
\<close>

lemma graph_names_on_return:
  "(update_entity flt md5 r n d = (Inr ures, r1) \<longrightarrow>
      HasNode n \<in> set (new_calls r r1) \<and>
      set (concat (map call_names (new_calls r r1))) = {n}) \<and>
   (update_relation flt md5 r s t d = (Inr rres, r2) \<longrightarrow>
      HasNode (formatted s) \<in> set (new_calls r r2) \<and>
      HasNode (formatted t) \<in> set (new_calls r r2) \<and>
      set (concat (map call_names (new_calls r r2))) = {formatted s, formatted t}) \<and>
   (insert_custom_relations flt md5 r items = (Inr bres, r3) \<longrightarrow>
      set (concat (map call_names (new_calls r r3))) =
        item_src ` set items \<union> item_tgt ` set items \<and>
      (\<forall>item \<in> set items. \<exists>a b.
         item ''src_id'' = Some (PStr a) \<and> item ''tgt_id'' = Some (PStr b) \<and>
         item_src item = formatted a \<and> item_tgt item = formatted b))"
proof (intro conjI impI)
  {
    assume "update_entity flt md5 r n d = (Inr ures, r1)"
    from update_entity_calls [OF this]
    show "HasNode n \<in> set (new_calls r r1)"
      and "set (concat (map call_names (new_calls r r1))) = {n}"
      by auto
  }
  {
    assume "update_relation flt md5 r s t d = (Inr rres, r2)"
    from update_relation_calls [OF this]
    show "HasNode (formatted s) \<in> set (new_calls r r2)"
      and "HasNode (formatted t) \<in> set (new_calls r r2)"
      and "set (concat (map call_names (new_calls r r2))) = {formatted s, formatted t}"
      by auto
  }
  {
    assume run: "insert_custom_relations flt md5 r items = (Inr bres, r3)"
    from insert_custom_relations_calls [OF run]
    have "\<exists>rest. new_calls r r3 = concat (map (item_calls (graph_nodes r)) items) @ rest \<and>
            concat (map call_names rest) = []"
      by auto
    then obtain rest where
      nc: "new_calls r r3 = concat (map (item_calls (graph_nodes r)) items) @ rest" and
      rest: "concat (map call_names rest) = []"
      by blast
    show "set (concat (map call_names (new_calls r r3))) =
        item_src ` set items \<union> item_tgt ` set items"
      unfolding nc using rest call_names_item_calls [of "graph_nodes r" items] by simp
    from insert_custom_relations_Inr [OF run]
    have "\<forall>item \<in> set items. well_formed item" by simp
    then show "\<forall>item \<in> set items. \<exists>a b.
         item ''src_id'' = Some (PStr a) \<and> item ''tgt_id'' = Some (PStr b) \<and>
         item_src item = formatted a \<and> item_tgt item = formatted b"
      by (blast dest: well_formed_fields)
  }
qed

text \<open>
  C4. The claim asks that \<open>update_entity\<close> makes its existence check and its reads and
  writes with the normalized name, as \<open>update_relation\<close> and the batch insertion do. On
  the sample, where the entity \<open>A\<close> is stored under its normalized name:
  \<open>update_relation\<close> called with \<open>a\<close> and \<open>b\<close> checks, reads and writes with the
  normalized names and succeeds, whereas \<open>update_entity\<close> called with \<open>a\<close> checks the
  name \<open>a\<close> itself and reports the entity as missing; called with \<open>PARIS\<close> it reads
  and writes the node \<open>PARIS\<close>, not the node of the normalized name.
\<close>

theorem update_entity_raw_name_lookup:
  "graph_nodes sample_rag (formatted ''a'') \<noteq> None \<and>
   ''a'' \<noteq> formatted ''a'' \<and>
   fst lower_a_update =
     Inr \<lparr>status = Failed, message = EntityNotFound ''a'', updated_data = None\<rparr> \<and>
   new_calls sample_rag (snd lower_a_update) = [HasNode ''a''] \<and>
   ''PARIS'' \<noteq> formatted ''PARIS'' \<and>
   status (projr (fst paris_first)) = Success \<and>
   concat (map call_names (new_calls sample_rag (snd paris_first))) =
     [''PARIS'', ''PARIS'', ''PARIS''] \<and>
   status (projr (fst sample_relation_update)) = Success \<and>
   concat (map call_names (new_calls sample_rag (snd sample_relation_update))) =
     [formatted ''a'', formatted ''b'', formatted ''a'', formatted ''b'',
      formatted ''a'', formatted ''b'', formatted ''a'', formatted ''b'']"
  by (simp add: lower_a_update_def paris_first_def update_entity_eval new_calls_def
        graph_nodes_def sample_relation_update_def update_relation_def merge_edge_data_def)

end
